theory Spec2Isabelle
  imports Main "HOL-Library.Char_ord" "HOL-Library.List_Lexorder"
begin

section \<open>Blocks of the compiler (compiler/block.py)\<close>

text \<open>
  The source is a Python 2 module whose string literals are byte strings encoded in
  UTF-8.  A HOL \<^typ>\<open>string\<close> is a list of bytes, so the two-byte letters of the
  source are written out: the Greek letter pi is the bytes CF 80 and the sharp s is
  the bytes C3 9F.  Byte strings compare bytewise and lexicographically, which is the
  order of \<^typ>\<open>char list\<close> given by the imported library theories.
\<close>

definition gr_pi :: string where
  "gr_pi = [CHR 0xCF, CHR 0x80]"

definition sharp_s :: string where
  "sharp_s = [CHR 0xC3, CHR 0x9F]"

subsection \<open>Decimal formatting\<close>

text \<open>\<^verbatim>\<open>'{}'.format(n)\<close> and \<^verbatim>\<open>'{:03d}'.format(n)\<close> for a natural number.\<close>

definition digit :: "nat \<Rightarrow> char" where
  "digit d = char_of (48 + d)"

fun dec :: "nat \<Rightarrow> string" where
  "dec n = (if n < 10 then [digit n] else dec (n div 10) @ [digit (n mod 10)])"

declare dec.simps [simp del]

definition dec03 :: "nat \<Rightarrow> string" where
  "dec03 n = replicate (3 - length (dec n)) (CHR ''0'') @ dec n"

subsection \<open>Errors\<close>

text \<open>
  \<open>ParseError\<close> is the compiler's own diagnosed error (its message is kept);
  \<open>KeyError\<close>, \<open>AttributeError\<close> and \<open>AssertionError\<close> are the interpreter's
  errors for a missing dictionary key or set element, for an attribute read on a value
  that lacks it (\<open>None\<close>, or a syntax node of another kind), for a failed
  \<open>assert\<close> and for \<open>pop\<close> or an index on an empty list.
\<close>

datatype error = ParseError string | KeyError | AttributeError | AssertionError | IndexError

subsection \<open>Loop, temporaries and the fields of Block\<close>

record Loop =
  start_label :: nat
  end_label :: nat

text \<open>
  \<open>expr.GeneratedTempVar(block, name, type_)\<close>: the descriptor of a temporary.  The
  sets \<open>free_temps\<close> and \<open>used_temps\<close> hold such objects; a Python set
  iterates in an order of its own, and \<open>sorted\<close> is stable, so the sets are lists
  without repetition whose order stands for the iteration order.
\<close>

record GeneratedTempVar =
  tv_name :: string
  tv_type :: string

record Block =
  block_name :: string
  free_temps :: "GeneratedTempVar list"
  used_temps :: "GeneratedTempVar list"
  temp_index :: nat
  label_count :: nat
  checkpoints :: "nat set"
  loop_stack :: "Loop list"
  is_generator :: bool

text \<open>\<open>Block.__init__\<close> (the parent link is part of the block tree below).\<close>

definition Block_init :: "string \<Rightarrow> Block" where
  "Block_init nm = \<lparr> block_name = nm, free_temps = [], used_temps = [],
     temp_index = 0, label_count = 0, checkpoints = {}, loop_stack = [],
     is_generator = False \<rparr>"

subsection \<open>Labels\<close>

definition genlabel :: "bool \<Rightarrow> Block \<Rightarrow> nat \<times> Block" where
  "genlabel is_checkpoint self =
     (let self1 = self\<lparr>label_count := label_count self + 1\<rparr>;
          self2 = (if is_checkpoint
                   then self1\<lparr>checkpoints := insert (label_count self1) (checkpoints self1)\<rparr>
                   else self1)
      in (label_count self2, self2))"

text \<open>Successive calls of \<open>genlabel\<close>, one per flag, collecting the returned ids.\<close>

fun genlabels :: "bool list \<Rightarrow> Block \<Rightarrow> nat list \<times> Block" where
  "genlabels [] self = ([], self)"
| "genlabels (c # cs) self =
     (case genlabel c self of (i, self1) \<Rightarrow>
        (case genlabels cs self1 of (ids, self2) \<Rightarrow> (i # ids, self2)))"

definition push_loop :: "Block \<Rightarrow> Loop \<times> Block" where
  "push_loop self =
     (case genlabel False self of (s, self1) \<Rightarrow>
        (case genlabel False self1 of (e, self2) \<Rightarrow>
           (let loop = \<lparr> start_label = s, end_label = e \<rparr>
            in (loop, self2\<lparr>loop_stack := loop_stack self2 @ [loop]\<rparr>))))"

definition pop_loop :: "Block \<Rightarrow> error + Block" where
  "pop_loop self =
     (if loop_stack self = [] then Inl IndexError
      else Inr (self\<lparr>loop_stack := butlast (loop_stack self)\<rparr>))"

definition top_loop :: "Block \<Rightarrow> error + Loop" where
  "top_loop self = (if loop_stack self = [] then Inl IndexError else Inr (last (loop_stack self)))"

subsection \<open>Temporaries\<close>

text \<open>
  The name of the temporary with index \<open>i\<close>, \<^verbatim>\<open>'piTemp{:03d}'.format(i)\<close> with the
  letter pi in front, and the default type of \<open>alloc_temp\<close>.
\<close>

definition temp_name :: "nat \<Rightarrow> string" where
  "temp_name i = gr_pi @ ''Temp'' @ dec03 i"

definition default_type :: string where
  "default_type = ''*'' @ gr_pi @ ''g.Object''"

text \<open>
  \<open>alloc_temp\<close> takes the first temporary of the wanted type among the free ones,
  sorted by name, or makes a new one.  A descriptor also records the block that made
  it; every descriptor in the two sets of a block was made by that block, so the field
  is left out, and within one block a descriptor is known by its name and type.
\<close>

definition alloc_temp :: "string \<Rightarrow> Block \<Rightarrow> GeneratedTempVar \<times> Block" where
  "alloc_temp type' self =
     (case find (\<lambda>v. tv_type v = type') (sort_key tv_name (free_temps self)) of
        Some v \<Rightarrow>
          (v, self\<lparr>free_temps := remove1 v (free_temps self),
                   used_temps := List.insert v (used_temps self)\<rparr>)
      | None \<Rightarrow>
          (let self1 = self\<lparr>temp_index := temp_index self + 1\<rparr>;
               v = \<lparr> tv_name = temp_name (temp_index self1), tv_type = type' \<rparr>
           in (v, self1\<lparr>used_temps := List.insert v (used_temps self1)\<rparr>)))"

text \<open>\<open>set.remove\<close> raises \<open>KeyError\<close> when the element is missing.\<close>

definition free_temp :: "GeneratedTempVar \<Rightarrow> Block \<Rightarrow> error + Block" where
  "free_temp v self =
     (if v \<in> set (used_temps self)
      then Inr (self\<lparr>used_temps := remove1 v (used_temps self),
                     free_temps := List.insert v (free_temps self)\<rparr>)
      else Inl KeyError)"

text \<open>
  The states of the fields of \<open>Block\<close> that its operations can reach from a new
  block; \<open>FunctionBlock.__init__\<close> also sets \<open>is_generator\<close>.
\<close>

inductive reachable :: "Block \<Rightarrow> bool" where
  reach_init: "reachable (Block_init nm)"
| reach_alloc: "reachable s \<Longrightarrow> reachable (snd (alloc_temp t s))"
| reach_free: "reachable s \<Longrightarrow> free_temp v s = Inr s' \<Longrightarrow> reachable s'"
| reach_label: "reachable s \<Longrightarrow> reachable (snd (genlabel c s))"
| reach_loop: "reachable s \<Longrightarrow> reachable (snd (push_loop s))"
| reach_pop: "reachable s \<Longrightarrow> pop_loop s = Inr s' \<Longrightarrow> reachable s'"
| reach_gen: "reachable s \<Longrightarrow> reachable (s\<lparr>is_generator := g\<rparr>)"

subsection \<open>Variables\<close>

datatype var_type = TYPE_LOCAL | TYPE_PARAM | TYPE_GLOBAL

record Var =
  var_name :: string
  var_type :: var_type
  init_expr :: "string option"

text \<open>\<open>Var.__init__\<close>, with its assertions on \<open>arg_index\<close>.\<close>

definition Var_init :: "string \<Rightarrow> var_type \<Rightarrow> nat option \<Rightarrow> error + Var" where
  "Var_init name vt arg_index =
     (case vt of
        TYPE_LOCAL \<Rightarrow>
          (if arg_index = None
           then Inr \<lparr> var_name = name, var_type = vt,
                      init_expr = Some (gr_pi @ ''g.UnboundLocal'') \<rparr>
           else Inl AssertionError)
      | TYPE_PARAM \<Rightarrow>
          (case arg_index of
             None \<Rightarrow> Inl AssertionError
           | Some i \<Rightarrow> Inr \<lparr> var_name = name, var_type = vt,
                             init_expr = Some (gr_pi @ ''Args['' @ dec i @ '']'') \<rparr>)
      | TYPE_GLOBAL \<Rightarrow>
          (if arg_index = None
           then Inr \<lparr> var_name = name, var_type = vt, init_expr = None \<rparr>
           else Inl AssertionError))"

subsection \<open>The tree of blocks\<close>

record Package =
  pkg_name :: string
  pkg_alias :: string

record ModuleFields =
  full_package_name :: string
  runtime :: string
  libroot :: string
  filename :: string
  lines :: "string list"
  strings :: "string set"
  import_table :: "(string \<times> Package) list"

text \<open>
  A block holds the fields of \<open>Block\<close>, the link to its parent (\<open>None\<close> for a
  module, and for a class or function block built without a parent) and the data of
  its kind: the names declared global in a class body, the variables of a function.
\<close>

datatype block =
    ModuleBlock Block ModuleFields
  | ClassBlock Block "block option" "string set"
  | FunctionBlock Block "block option" "(string \<times> Var) list"

fun base :: "block \<Rightarrow> Block" where
  "base (ModuleBlock b m) = b"
| "base (ClassBlock b p g) = b"
| "base (FunctionBlock b p vs) = b"

fun set_base :: "Block \<Rightarrow> block \<Rightarrow> block" where
  "set_base b' (ModuleBlock b m) = ModuleBlock b' m"
| "set_base b' (ClassBlock b p g) = ClassBlock b' p g"
| "set_base b' (FunctionBlock b p vs) = FunctionBlock b' p vs"

fun parent_block :: "block \<Rightarrow> block option" where
  "parent_block (ModuleBlock b m) = None"
| "parent_block (ClassBlock b p g) = p"
| "parent_block (FunctionBlock b p vs) = p"

text \<open>
  \<open>self._module_block\<close>: the loop of \<open>Block.__init__\<close> follows the parents up to the
  first module; it is \<open>None\<close> when the chain ends without one.
\<close>

fun module_block :: "block \<Rightarrow> block option" where
  "module_block (ModuleBlock b m) = Some (ModuleBlock b m)"
| "module_block (ClassBlock b None g) = None"
| "module_block (ClassBlock b (Some p) g) = module_block p"
| "module_block (FunctionBlock b None vs) = None"
| "module_block (FunctionBlock b (Some p) vs) = module_block p"

text \<open>
  A method called on \<open>self._module_block\<close> runs on the module at the root and changes
  it in place; the blocks below see the change through their parent links.  \<open>None\<close>
  stands for the \<open>AttributeError\<close> of a call on a missing module.
\<close>

fun at_module :: "(block \<Rightarrow> 'a \<times> block) \<Rightarrow> block \<Rightarrow> ('a \<times> block) option" where
  "at_module f (ModuleBlock b m) = Some (f (ModuleBlock b m))"
| "at_module f (ClassBlock b None g) = None"
| "at_module f (ClassBlock b (Some p) g) =
     (case at_module f p of None \<Rightarrow> None
      | Some (r, p') \<Rightarrow> Some (r, ClassBlock b (Some p') g))"
| "at_module f (FunctionBlock b None vs) = None"
| "at_module f (FunctionBlock b (Some p) vs) =
     (case at_module f p of None \<Rightarrow> None
      | Some (r, p') \<Rightarrow> Some (r, FunctionBlock b (Some p') vs))"

subsection \<open>The util module and the writer\<close>

text \<open>
  \<open>util.adjust_local_name\<close> and \<open>util.go_str\<close> belong to a module outside this file;
  the operations take them as a parameter.  The writer is an object of the code
  generator; what reaches it is recorded, call by call, with the format string and
  the arguments as given.
\<close>

record util =
  adjust_local_name :: "string \<Rightarrow> string"
  go_str :: "string \<Rightarrow> string"

datatype instr =
    Write string
  | Write_checked_call1 string "string list"
  | Write_checked_call2 GeneratedTempVar string "string list"

type_synonym writer = "instr list"

datatype gen_expr = TempVar GeneratedTempVar | GeneratedLocalVar string

subsection \<open>Interned strings\<close>

text \<open>The pattern \<^verbatim>\<open>[^A-Za-z0-9_]\<close> finds a byte that is not a word character.\<close>

definition word_char :: "char \<Rightarrow> bool" where
  "word_char c \<longleftrightarrow>
     (CHR ''A'' \<le> c \<and> c \<le> CHR ''Z'') \<or> (CHR ''a'' \<le> c \<and> c \<le> CHR ''z'') \<or>
     (CHR ''0'' \<le> c \<and> c \<le> CHR ''9'') \<or> c = CHR ''_''"

definition non_word_re_search :: "string \<Rightarrow> bool" where
  "non_word_re_search s = list_ex (\<lambda>c. \<not> word_char c) s"

definition strings_add :: "string \<Rightarrow> block \<Rightarrow> unit \<times> block" where
  "strings_add s m =
     (case m of
        ModuleBlock b mf \<Rightarrow> ((), ModuleBlock b (mf\<lparr>strings := insert s (strings mf)\<rparr>))
      | _ \<Rightarrow> ((), m))"

text \<open>\<open>self.strings\<close> is the string set of the module at the root.\<close>

definition block_strings :: "block \<Rightarrow> string set option" where
  "block_strings self =
     (case module_block self of
        Some (ModuleBlock b mf) \<Rightarrow> Some (strings mf)
      | _ \<Rightarrow> None)"

definition intern :: "util \<Rightarrow> string \<Rightarrow> block \<Rightarrow> (error + string) \<times> block" where
  "intern u s self =
     (if length s > 64 \<or> non_word_re_search s
      then (Inr (gr_pi @ ''g.NewStr('' @ go_str u s @ '')''), self)
      else (case at_module (strings_add s) self of
              None \<Rightarrow> (Inl AttributeError, self)
            | Some (_, self') \<Rightarrow> (Inr (sharp_s @ s), self')))"

subsection \<open>Resolving, binding and deleting names\<close>

definition block_alloc_temp :: "string \<Rightarrow> block \<Rightarrow> GeneratedTempVar \<times> block" where
  "block_alloc_temp type' self =
     (case alloc_temp type' (base self) of (v, b') \<Rightarrow> (v, set_base b' self))"

definition fmt_ResolveGlobal :: string where
  "fmt_ResolveGlobal = gr_pi @ ''g.ResolveGlobal('' @ gr_pi @ ''F, '' @ gr_pi @ ''Globals, {})''"

definition fmt_ResolveClass :: string where
  "fmt_ResolveClass = gr_pi @ ''g.ResolveClass('' @ gr_pi @ ''F, '' @ gr_pi @ ''Class, {}, ''
     @ gr_pi @ ''Globals, {})''"

definition fmt_SetItem_Globals :: string where
  "fmt_SetItem_Globals = gr_pi @ ''Globals.SetItem('' @ gr_pi @ ''F, {}.ToObject(), {})''"

definition fmt_SetItem_Class :: string where
  "fmt_SetItem_Class = gr_pi @ ''Class.SetItem('' @ gr_pi @ ''F, {}.ToObject(), {})''"

definition fmt_DelVar_Globals :: string where
  "fmt_DelVar_Globals = gr_pi @ ''g.DelVar('' @ gr_pi @ ''F, '' @ gr_pi @ ''Globals, {})''"

definition fmt_DelVar_Class :: string where
  "fmt_DelVar_Class = gr_pi @ ''g.DelVar('' @ gr_pi @ ''F, '' @ gr_pi @ ''Class, {})''"

definition fmt_CheckLocal :: string where
  "fmt_CheckLocal = gr_pi @ ''g.CheckLocal('' @ gr_pi @ ''F, {}, {})''"

text \<open>
  \<open>Block._resolve_global\<close>: the temporary is allocated first, the name is interned
  while the arguments of the call are evaluated, and then the call is written.
\<close>

definition resolve_global ::
  "util \<Rightarrow> writer \<Rightarrow> string \<Rightarrow> block \<Rightarrow> (error + gen_expr) \<times> block \<times> writer" where
  "resolve_global u w name self =
     (case block_alloc_temp default_type self of (result, self1) \<Rightarrow>
        (case intern u name self1 of
           (Inl e, self2) \<Rightarrow> (Inl e, self2, w)
         | (Inr nm, self2) \<Rightarrow>
             (Inr (TempVar result), self2,
              w @ [Write_checked_call2 result fmt_ResolveGlobal [nm]])))"

text \<open>The methods of \<open>ModuleBlock\<close>.\<close>

definition ModuleBlock_bind_var ::
  "util \<Rightarrow> writer \<Rightarrow> string \<Rightarrow> string \<Rightarrow> block \<Rightarrow> (error + unit) \<times> block \<times> writer" where
  "ModuleBlock_bind_var u w name val self =
     (case intern u name self of
        (Inl e, self1) \<Rightarrow> (Inl e, self1, w)
      | (Inr nm, self1) \<Rightarrow>
          (Inr (), self1, w @ [Write_checked_call1 fmt_SetItem_Globals [nm, val]]))"

definition ModuleBlock_del_var ::
  "util \<Rightarrow> writer \<Rightarrow> string \<Rightarrow> block \<Rightarrow> (error + unit) \<times> block \<times> writer" where
  "ModuleBlock_del_var u w name self =
     (case intern u name self of
        (Inl e, self1) \<Rightarrow> (Inl e, self1, w)
      | (Inr nm, self1) \<Rightarrow>
          (Inr (), self1, w @ [Write_checked_call1 fmt_DelVar_Globals [nm]]))"

definition ModuleBlock_resolve_name ::
  "util \<Rightarrow> writer \<Rightarrow> string \<Rightarrow> block \<Rightarrow> (error + gen_expr) \<times> block \<times> writer" where
  "ModuleBlock_resolve_name u w name self = resolve_global u w name self"

text \<open>
  A call \<open>self._module_block.m(writer, ...)\<close>: the method runs on the module at the
  root, or the attribute read on \<open>None\<close> fails before anything is done.
\<close>

definition call_module ::
  "(block \<Rightarrow> (error + 'a) \<times> block \<times> writer) \<Rightarrow> writer \<Rightarrow> block
     \<Rightarrow> (error + 'a) \<times> block \<times> writer" where
  "call_module m w self =
     (case at_module (\<lambda>r. case m r of (res, r', w') \<Rightarrow> ((res, w'), r')) self of
        None \<Rightarrow> (Inl AttributeError, self, w)
      | Some ((res, w'), self') \<Rightarrow> (res, self', w'))"

text \<open>
  The loop of \<open>ClassBlock.resolve_name\<close>, entered with \<open>block = self.parent_block\<close>;
  its result is the value of \<open>local\<close> when the loop is left.  The test
  \<open>isinstance(None, ModuleBlock)\<close> is false, so a chain that ends without a module
  fails on \<open>None.parent_block\<close>.
\<close>

fun class_local :: "util \<Rightarrow> string \<Rightarrow> block option \<Rightarrow> error + string" where
  "class_local u name None = Inl AttributeError"
| "class_local u name (Some (ModuleBlock b m)) = Inr ''nil''"
| "class_local u name (Some (FunctionBlock b p vs)) =
     (case map_of vs name of
        Some var \<Rightarrow>
          Inr (if var_type var \<noteq> TYPE_GLOBAL then adjust_local_name u name else ''nil'')
      | None \<Rightarrow> class_local u name p)"
| "class_local u name (Some (ClassBlock b p g)) = class_local u name p"

text \<open>
  The loop of \<open>FunctionBlock.resolve_name\<close>, entered with \<open>block = self\<close>: the
  variable of the first function block that has the name, or \<open>None\<close> when the module
  is reached.
\<close>

fun function_lookup :: "string \<Rightarrow> block option \<Rightarrow> error + Var option" where
  "function_lookup name None = Inl AttributeError"
| "function_lookup name (Some (ModuleBlock b m)) = Inr None"
| "function_lookup name (Some (FunctionBlock b p vs)) =
     (case map_of vs name of
        Some var \<Rightarrow> Inr (Some var)
      | None \<Rightarrow> function_lookup name p)"
| "function_lookup name (Some (ClassBlock b p g)) = function_lookup name p"

text \<open>
  The three methods, by the class of \<open>self\<close>: \<open>ModuleBlock\<close>, \<open>ClassBlock\<close>,
  \<open>FunctionBlock\<close>.  \<open>self.vars[name]\<close> raises \<open>KeyError\<close> for a missing name,
  \<open>self.vars.get(name)\<close> gives \<open>None\<close>.
\<close>

fun bind_var ::
  "util \<Rightarrow> writer \<Rightarrow> string \<Rightarrow> string \<Rightarrow> block \<Rightarrow> (error + unit) \<times> block \<times> writer" where
  "bind_var u w name val (ModuleBlock b m) =
     ModuleBlock_bind_var u w name val (ModuleBlock b m)"
| "bind_var u w name val (ClassBlock b p global_vars) =
     (if name \<in> global_vars
      then call_module (ModuleBlock_bind_var u w name val) w (ClassBlock b p global_vars)
      else (case intern u name (ClassBlock b p global_vars) of
              (Inl e, self1) \<Rightarrow> (Inl e, self1, w)
            | (Inr nm, self1) \<Rightarrow>
                (Inr (), self1, w @ [Write_checked_call1 fmt_SetItem_Class [nm, val]])))"
| "bind_var u w name val (FunctionBlock b p vs) =
     (case map_of vs name of
        None \<Rightarrow> (Inl KeyError, FunctionBlock b p vs, w)
      | Some var \<Rightarrow>
          (if var_type var = TYPE_GLOBAL
           then call_module (ModuleBlock_bind_var u w name val) w (FunctionBlock b p vs)
           else (Inr (), FunctionBlock b p vs,
                 w @ [Write (adjust_local_name u name @ '' = '' @ val)])))"

fun del_var ::
  "util \<Rightarrow> writer \<Rightarrow> string \<Rightarrow> block \<Rightarrow> (error + unit) \<times> block \<times> writer" where
  "del_var u w name (ModuleBlock b m) = ModuleBlock_del_var u w name (ModuleBlock b m)"
| "del_var u w name (ClassBlock b p global_vars) =
     (if name \<in> global_vars
      then call_module (ModuleBlock_del_var u w name) w (ClassBlock b p global_vars)
      else (case intern u name (ClassBlock b p global_vars) of
              (Inl e, self1) \<Rightarrow> (Inl e, self1, w)
            | (Inr nm, self1) \<Rightarrow>
                (Inr (), self1, w @ [Write_checked_call1 fmt_DelVar_Class [nm]])))"
| "del_var u w name (FunctionBlock b p vs) =
     (case map_of vs name of
        None \<Rightarrow>
          (Inl (ParseError (''cannot delete nonexistent local: '' @ name)),
           FunctionBlock b p vs, w)
      | Some var \<Rightarrow>
          (if var_type var = TYPE_GLOBAL
           then call_module (ModuleBlock_del_var u w name) w (FunctionBlock b p vs)
           else (let adjusted_name = adjust_local_name u name
                 in (Inr (), FunctionBlock b p vs,
                     w @ [Write_checked_call1 fmt_CheckLocal [adjusted_name, go_str u name],
                          Write (adjusted_name @ '' = '' @ gr_pi @ ''g.UnboundLocal'')]))))"

fun resolve_name ::
  "util \<Rightarrow> writer \<Rightarrow> string \<Rightarrow> block \<Rightarrow> (error + gen_expr) \<times> block \<times> writer" where
  "resolve_name u w name (ModuleBlock b m) =
     ModuleBlock_resolve_name u w name (ModuleBlock b m)"
| "resolve_name u w name (ClassBlock b p global_vars) =
     (case (if name \<notin> global_vars then class_local u name p else Inr ''nil'') of
        Inl e \<Rightarrow> (Inl e, ClassBlock b p global_vars, w)
      | Inr local \<Rightarrow>
          (case block_alloc_temp default_type (ClassBlock b p global_vars) of
             (result, self1) \<Rightarrow>
               (case intern u name self1 of
                  (Inl e, self2) \<Rightarrow> (Inl e, self2, w)
                | (Inr nm, self2) \<Rightarrow>
                    (Inr (TempVar result), self2,
                     w @ [Write_checked_call2 result fmt_ResolveClass [local, nm]]))))"
| "resolve_name u w name (FunctionBlock b p vs) =
     (case function_lookup name (Some (FunctionBlock b p vs)) of
        Inl e \<Rightarrow> (Inl e, FunctionBlock b p vs, w)
      | Inr None \<Rightarrow> resolve_global u w name (FunctionBlock b p vs)
      | Inr (Some var) \<Rightarrow>
          (if var_type var = TYPE_GLOBAL
           then resolve_global u w name (FunctionBlock b p vs)
           else (Inr (GeneratedLocalVar name), FunctionBlock b p vs,
                 w @ [Write_checked_call1 fmt_CheckLocal
                        [adjust_local_name u name, go_str u name]])))"

text \<open>
  A sample of the util module for the examples: a local name is prefixed with the
  micro sign (bytes C2 B5) and a string is put in double quotes.
\<close>

definition util0 :: util where
  "util0 = \<lparr> adjust_local_name = (\<lambda>n. [CHR 0xC2, CHR 0xB5] @ n),
             go_str = (\<lambda>s. [CHR 0x22] @ s @ [CHR 0x22]) \<rparr>"

definition ModuleBlock_init :: "string \<Rightarrow> string \<Rightarrow> string \<Rightarrow> string \<Rightarrow> string list \<Rightarrow> block" where
  "ModuleBlock_init fpn rt lr fn ls =
     ModuleBlock (Block_init ''<module>'')
       \<lparr> full_package_name = fpn, runtime = rt, libroot = lr, filename = fn, lines = ls,
         strings = {}, import_table = [] \<rparr>"

definition ClassBlock_init :: "block option \<Rightarrow> string \<Rightarrow> string set \<Rightarrow> block" where
  "ClassBlock_init parent name global_vars = ClassBlock (Block_init name) parent global_vars"

definition FunctionBlock_init ::
  "block option \<Rightarrow> string \<Rightarrow> (string \<times> Var) list \<Rightarrow> bool \<Rightarrow> block" where
  "FunctionBlock_init parent name block_vars is_gen =
     FunctionBlock ((Block_init name)\<lparr>is_generator := is_gen\<rparr>) parent block_vars"

definition m0 :: block where
  "m0 = ModuleBlock_init ''__main__'' ''grumpy'' ''lib'' ''a.py'' []"

definition var_local :: "string \<Rightarrow> Var" where
  "var_local name = \<lparr> var_name = name, var_type = TYPE_LOCAL,
     init_expr = Some (gr_pi @ ''g.UnboundLocal'') \<rparr>"

definition var_global :: "string \<Rightarrow> Var" where
  "var_global name = \<lparr> var_name = name, var_type = TYPE_GLOBAL, init_expr = None \<rparr>"

definition f_outer :: block where
  "f_outer = FunctionBlock (Block_init ''outer'') (Some m0) [(''x'', var_local ''x'')]"

definition f_inner :: block where
  "f_inner = FunctionBlock (Block_init ''inner'') (Some f_outer) [(''x'', var_global ''x'')]"

definition k_mid :: block where
  "k_mid = ClassBlock (Block_init ''Mid'') (Some f_outer) {}"

definition vars1 :: "(string \<times> Var) list" where
  "vars1 = [(''x'', var_local ''x''), (''g'', var_global ''g'')]"

text \<open>
  In the words of the specification: the ancestors of a scope from the nearest
  outward, the nearest Function-scope ancestor whose variable map has the name, and
  the reference captured from it.
\<close>

fun ancestors :: "block option \<Rightarrow> block list" where
  "ancestors None = []"
| "ancestors (Some (ModuleBlock b m)) = [ModuleBlock b m]"
| "ancestors (Some (ClassBlock b p g)) = ClassBlock b p g # ancestors p"
| "ancestors (Some (FunctionBlock b p vs)) = FunctionBlock b p vs # ancestors p"

fun function_vars :: "block \<Rightarrow> (string \<times> Var) list option" where
  "function_vars (FunctionBlock b p vs) = Some vs"
| "function_vars (ClassBlock b p g) = None"
| "function_vars (ModuleBlock b m) = None"

definition has_var :: "string \<Rightarrow> block \<Rightarrow> bool" where
  "has_var name a =
     (case function_vars a of Some vs \<Rightarrow> map_of vs name \<noteq> None | None \<Rightarrow> False)"

definition nearest_function :: "string \<Rightarrow> block \<Rightarrow> block option" where
  "nearest_function name self = find (has_var name) (ancestors (parent_block self))"

definition captured_local :: "util \<Rightarrow> string \<Rightarrow> block \<Rightarrow> string" where
  "captured_local u name self =
     (case nearest_function name self of
        None \<Rightarrow> ''nil''
      | Some f \<Rightarrow>
          (case function_vars f of
             None \<Rightarrow> ''nil''
           | Some vs \<Rightarrow>
               (case map_of vs name of
                  None \<Rightarrow> ''nil''
                | Some var \<Rightarrow>
                    (if var_type var \<noteq> TYPE_GLOBAL then adjust_local_name u name
                     else ''nil''))))"

text \<open>Replacing the module at the root of a chain (used to state what a call does).\<close>

fun set_module :: "block \<Rightarrow> block \<Rightarrow> block" where
  "set_module m' (ModuleBlock b m) = m'"
| "set_module m' (ClassBlock b None g) = ClassBlock b None g"
| "set_module m' (ClassBlock b (Some p) g) = ClassBlock b (Some (set_module m' p)) g"
| "set_module m' (FunctionBlock b None vs) = FunctionBlock b None vs"
| "set_module m' (FunctionBlock b (Some p) vs) = FunctionBlock b (Some (set_module m' p)) vs"

fun is_module :: "block \<Rightarrow> bool" where
  "is_module (ModuleBlock b m) = True"
| "is_module (ClassBlock b p g) = False"
| "is_module (FunctionBlock b p vs) = False"

subsection \<open>The run-time lookups behind the written calls\<close>

text \<open>
  Modelled from the spec: the run-time library that the written calls name is outside
  this file.  What it reads at run time are the local slots of the enclosing
  function, the namespace of the class and the namespace of the module.  A local slot
  is given by the expression that names it and has no value while it is unbound; a
  namespace is keyed by the expression of the interned name.
\<close>

record 'v namespaces =
  local_slots :: "string \<rightharpoonup> 'v"
  class_namespace :: "string \<rightharpoonup> 'v"
  module_namespace :: "string \<rightharpoonup> 'v"

text \<open>
  Modelled from the spec: a lookup that misses everywhere fails at run time with a
  name error.
\<close>

datatype runtime_error = NameError string

text \<open>
  Modelled from the spec: the run-time primitive \<open>ResolveGlobal\<close> is outside this
  file.  According to the specification the lookup of the Module scope reads the
  Module namespace and fails at run time with a name error if the key is absent.
\<close>

definition ResolveGlobal :: "'v namespaces \<Rightarrow> string \<Rightarrow> runtime_error + 'v" where
  "ResolveGlobal ns nm =
     (case module_namespace ns nm of Some val \<Rightarrow> Inr val | None \<Rightarrow> Inl (NameError nm))"

text \<open>
  Modelled from the spec: the run-time primitive \<open>ResolveClass\<close> is outside this
  file.  According to the specification the combined lookup of a class scope tries
  the captured local reference (or none, written \<open>nil\<close>) first, then the class's own
  namespace, then falls back to the Module namespace, and fails at run time if all
  three miss.
\<close>

definition ResolveClass :: "'v namespaces \<Rightarrow> string \<Rightarrow> string \<Rightarrow> runtime_error + 'v" where
  "ResolveClass ns local nm =
     (case (if local = ''nil'' then None else local_slots ns local) of
        Some val \<Rightarrow> Inr val
      | None \<Rightarrow>
          (case class_namespace ns nm of
             Some val \<Rightarrow> Inr val
           | None \<Rightarrow> ResolveGlobal ns nm))"

text \<open>
  Modelled from the spec: the writer and the run-time library are outside this file.
  A written checked call with a result computes what the primitive named in its
  format string computes on the arguments that fill the format.
\<close>

definition run_checked_call2 :: "'v namespaces \<Rightarrow> instr \<Rightarrow> (runtime_error + 'v) option" where
  "run_checked_call2 ns i =
     (case i of
        Write_checked_call2 result fmt as \<Rightarrow>
          (if fmt = fmt_ResolveClass
           then (case as of [local, nm] \<Rightarrow> Some (ResolveClass ns local nm) | _ \<Rightarrow> None)
           else if fmt = fmt_ResolveGlobal
           then (case as of [nm] \<Rightarrow> Some (ResolveGlobal ns nm) | _ \<Rightarrow> None)
           else None)
      | _ \<Rightarrow> None)"

text \<open>
  Sample namespaces: the local \<open>x\<close> of the enclosing function is bound, the class
  namespace is empty and the module has an \<open>x\<close> of its own.
\<close>

definition ns0 :: "string namespaces" where
  "ns0 = \<lparr> local_slots = [adjust_local_name util0 ''x'' \<mapsto> ''1''],
           class_namespace = Map.empty,
           module_namespace = [sharp_s @ ''x'' \<mapsto> ''2''] \<rparr>"

subsection \<open>The syntax tree\<close>

text \<open>
  The nodes of Python 2's \<open>ast\<close> module that the visitors tell apart.  Every
  other expression is an \<open>OtherExpr\<close> with its child expressions in field order;
  every other statement (\<open>If\<close>, \<open>While\<close>, \<open>TryFinally\<close>, \<open>Return\<close>, \<open>Expr\<close>,
  \<open>Print\<close>, ...) is an \<open>OtherStmt\<close> with its child expressions and then its child
  statements, the order in which their fields come.
\<close>

datatype expr =
    Name string
  | Tuple "expr list"
  | List "expr list"
  | Yield "expr option"
  | OtherExpr "expr list"

record ast_alias =
  alias_name :: string
  asname :: "string option"

record arguments =
  args :: "expr list"
  vararg :: "string option"
  kwarg :: "string option"
  defaults :: "expr list"

datatype stmt =
    Assign "expr list" expr
  | AugAssign expr expr
  | ClassDef string "expr list" "stmt list"
  | For expr expr "stmt list" "stmt list"
  | FunctionDef string arguments "stmt list"
  | Global "string list"
  | Import "ast_alias list"
  | ImportFrom "ast_alias list"
  | With expr "expr option" "stmt list"
  | TryExcept "stmt list" "excepthandler list" "stmt list"
  | OtherStmt "expr list" "stmt list"
and excepthandler =
    ExceptHandler "expr option" "expr option" "stmt list"

subsection \<open>BlockVisitor and FunctionBlockVisitor\<close>

text \<open>
  The state of a visitor: the ordered dictionary \<open>vars\<close>, new keys at the end, and
  the flag \<open>is_generator\<close> of \<open>FunctionBlockVisitor\<close>.
\<close>

record visitor =
  vars :: "(string \<times> Var) list"
  visitor_is_generator :: bool

definition BlockVisitor_init :: visitor where
  "BlockVisitor_init = \<lparr> vars = [], visitor_is_generator = False \<rparr>"

definition squote :: string where
  "squote = [CHR 0x27]"

definition register_local :: "string \<Rightarrow> visitor \<Rightarrow> error + visitor" where
  "register_local name v =
     (case map_of (vars v) name of
        Some var \<Rightarrow> Inr v
      | None \<Rightarrow>
          (case Var_init name TYPE_LOCAL None of
             Inl e \<Rightarrow> Inl e
           | Inr var \<Rightarrow> Inr (v\<lparr>vars := vars v @ [(name, var)]\<rparr>)))"

definition register_global :: "string \<Rightarrow> visitor \<Rightarrow> error + visitor" where
  "register_global name v =
     (case map_of (vars v) name of
        Some var \<Rightarrow>
          (if var_type var = TYPE_PARAM
           then Inl (ParseError (''name '' @ squote @ name @ squote @ '' is parameter and global''))
           else if var_type var = TYPE_LOCAL
           then Inl (ParseError (''name '' @ squote @ name @ squote
                                  @ '' is used prior to global declaration''))
           else Inr v)
      | None \<Rightarrow>
          (case Var_init name TYPE_GLOBAL None of
             Inl e \<Rightarrow> Inl e
           | Inr var \<Rightarrow> Inr (v\<lparr>vars := vars v @ [(name, var)]\<rparr>)))"

text \<open>
  \<open>_assign_target\<close>; \<open>assign_targets\<close> is its loop over the elements of a tuple or
  list, and the loop of \<open>visit_Assign\<close> over the targets.
\<close>

fun assign_target :: "expr \<Rightarrow> visitor \<Rightarrow> error + visitor"
  and assign_targets :: "expr list \<Rightarrow> visitor \<Rightarrow> error + visitor" where
  "assign_target (Name ident) v = register_local ident v"
| "assign_target (Tuple elts) v = assign_targets elts v"
| "assign_target (List elts) v = assign_targets elts v"
| "assign_target (Yield val) v = Inr v"
| "assign_target (OtherExpr es) v = Inr v"
| "assign_targets [] v = Inr v"
| "assign_targets (elt # elts) v =
     (case assign_target elt v of Inl e \<Rightarrow> Inl e | Inr v1 \<Rightarrow> assign_targets elts v1)"

text \<open>
  Visiting an expression: no method is defined for \<open>Name\<close> or any other expression
  but \<open>Yield\<close>, so \<open>generic_visit\<close> only walks down.  \<open>visit_Yield\<close> belongs to
  \<open>FunctionBlockVisitor\<close> (\<open>fv\<close> true) and does not walk into the yielded value.
\<close>

fun visit_expr :: "bool \<Rightarrow> expr \<Rightarrow> visitor \<Rightarrow> visitor"
  and visit_exprs :: "bool \<Rightarrow> expr list \<Rightarrow> visitor \<Rightarrow> visitor" where
  "visit_expr fv (Name ident) v = v"
| "visit_expr fv (Tuple elts) v = visit_exprs fv elts v"
| "visit_expr fv (List elts) v = visit_exprs fv elts v"
| "visit_expr fv (Yield None) v = (if fv then v\<lparr>visitor_is_generator := True\<rparr> else v)"
| "visit_expr fv (Yield (Some val)) v =
     (if fv then v\<lparr>visitor_is_generator := True\<rparr> else visit_expr fv val v)"
| "visit_expr fv (OtherExpr es) v = visit_exprs fv es v"
| "visit_exprs fv [] v = v"
| "visit_exprs fv (e # es) v = visit_exprs fv es (visit_expr fv e v)"

definition visit_expr_opt :: "bool \<Rightarrow> expr option \<Rightarrow> visitor \<Rightarrow> visitor" where
  "visit_expr_opt fv eo v = (case eo of None \<Rightarrow> v | Some e \<Rightarrow> visit_expr fv e v)"

text \<open>The names that \<open>visit_Import\<close> and \<open>visit_ImportFrom\<close> register.\<close>

definition import_name :: "ast_alias \<Rightarrow> string" where
  "import_name a =
     (case asname a of
        Some n \<Rightarrow> (if n \<noteq> [] then n else takeWhile (\<lambda>c. c \<noteq> CHR ''.'') (alias_name a))
      | None \<Rightarrow> takeWhile (\<lambda>c. c \<noteq> CHR ''.'') (alias_name a))"

definition import_from_name :: "ast_alias \<Rightarrow> string" where
  "import_from_name a =
     (case asname a of
        Some n \<Rightarrow> (if n \<noteq> [] then n else alias_name a)
      | None \<Rightarrow> alias_name a)"

fun register_locals :: "string list \<Rightarrow> visitor \<Rightarrow> error + visitor" where
  "register_locals [] v = Inr v"
| "register_locals (n # ns) v =
     (case register_local n v of Inl e \<Rightarrow> Inl e | Inr v1 \<Rightarrow> register_locals ns v1)"

fun register_globals :: "string list \<Rightarrow> visitor \<Rightarrow> error + visitor" where
  "register_globals [] v = Inr v"
| "register_globals (n # ns) v =
     (case register_global n v of Inl e \<Rightarrow> Inl e | Inr v1 \<Rightarrow> register_globals ns v1)"

text \<open>
  \<open>visit\<close> on a statement, by the class of the node; \<open>visit_stmts\<close> is the loop of
  \<open>generic_visit\<close> over a list of statements.  The bodies of \<open>ClassDef\<close> and
  \<open>FunctionDef\<close> are not visited.
\<close>

fun visit_stmt :: "bool \<Rightarrow> stmt \<Rightarrow> visitor \<Rightarrow> error + visitor"
  and visit_stmts :: "bool \<Rightarrow> stmt list \<Rightarrow> visitor \<Rightarrow> error + visitor"
  and visit_handler :: "bool \<Rightarrow> excepthandler \<Rightarrow> visitor \<Rightarrow> error + visitor"
  and visit_handlers :: "bool \<Rightarrow> excepthandler list \<Rightarrow> visitor \<Rightarrow> error + visitor" where
  "visit_stmt fv (Assign targets val) v =
     (case assign_targets targets v of
        Inl e \<Rightarrow> Inl e
      | Inr v1 \<Rightarrow> Inr (visit_expr fv val v1))"
| "visit_stmt fv (AugAssign target val) v =
     (case assign_target target v of
        Inl e \<Rightarrow> Inl e
      | Inr v1 \<Rightarrow> Inr (visit_expr fv val v1))"
| "visit_stmt fv (ClassDef name bases body) v = register_local name v"
| "visit_stmt fv (For target iter body orelse) v =
     (case assign_target target v of
        Inl e \<Rightarrow> Inl e
      | Inr v1 \<Rightarrow>
          (case visit_stmts fv body (visit_expr fv iter (visit_expr fv target v1)) of
             Inl e \<Rightarrow> Inl e
           | Inr v2 \<Rightarrow> visit_stmts fv orelse v2))"
| "visit_stmt fv (FunctionDef name arguments body) v = register_local name v"
| "visit_stmt fv (Global names) v = register_globals names v"
| "visit_stmt fv (Import names) v = register_locals (map import_name names) v"
| "visit_stmt fv (ImportFrom names) v = register_locals (map import_from_name names) v"
| "visit_stmt fv (With context_expr optional_vars body) v =
     (case (case optional_vars of None \<Rightarrow> Inr v | Some t \<Rightarrow> assign_target t v) of
        Inl e \<Rightarrow> Inl e
      | Inr v1 \<Rightarrow>
          visit_stmts fv body (visit_expr_opt fv optional_vars (visit_expr fv context_expr v1)))"
| "visit_stmt fv (TryExcept body handlers orelse) v =
     (case visit_stmts fv body v of
        Inl e \<Rightarrow> Inl e
      | Inr v1 \<Rightarrow>
          (case visit_handlers fv handlers v1 of
             Inl e \<Rightarrow> Inl e
           | Inr v2 \<Rightarrow> visit_stmts fv orelse v2))"
| "visit_stmt fv (OtherStmt es ss) v = visit_stmts fv ss (visit_exprs fv es v)"
| "visit_stmts fv [] v = Inr v"
| "visit_stmts fv (s # ss) v =
     (case visit_stmt fv s v of Inl e \<Rightarrow> Inl e | Inr v1 \<Rightarrow> visit_stmts fv ss v1)"
| "visit_handler fv (ExceptHandler type' name body) v =
     (case (case name of
              None \<Rightarrow> Inr v
            | Some (Name ident) \<Rightarrow> register_local ident v
            | Some _ \<Rightarrow> Inl AttributeError) of
        Inl e \<Rightarrow> Inl e
      | Inr v1 \<Rightarrow>
          visit_stmts fv body (visit_expr_opt fv name (visit_expr_opt fv type' v1)))"
| "visit_handlers fv [] v = Inr v"
| "visit_handlers fv (h # hs) v =
     (case visit_handler fv h v of Inl e \<Rightarrow> Inl e | Inr v1 \<Rightarrow> visit_handlers fv hs v1)"

text \<open>
  \<open>FunctionBlockVisitor.__init__\<close>: the names of the positional parameters (the
  attribute \<open>id\<close> exists only on a \<open>Name\<close>), then \<open>vararg\<close> and \<open>kwarg\<close> when
  present, and the loop that registers them with their index.
\<close>

fun arg_ids :: "expr list \<Rightarrow> error + string list" where
  "arg_ids [] = Inr []"
| "arg_ids (Name ident # as) =
     (case arg_ids as of Inl e \<Rightarrow> Inl e | Inr ids \<Rightarrow> Inr (ident # ids))"
| "arg_ids (a # as) = Inl AttributeError"

definition opt_name :: "string option \<Rightarrow> string list" where
  "opt_name n = (case n of None \<Rightarrow> [] | Some x \<Rightarrow> (if x \<noteq> [] then [x] else []))"

definition arg_names :: "arguments \<Rightarrow> error + string list" where
  "arg_names node_args =
     (case arg_ids (args node_args) of
        Inl e \<Rightarrow> Inl e
      | Inr ids \<Rightarrow> Inr (ids @ opt_name (vararg node_args) @ opt_name (kwarg node_args)))"

fun register_params :: "nat \<Rightarrow> string list \<Rightarrow> visitor \<Rightarrow> error + visitor" where
  "register_params i [] v = Inr v"
| "register_params i (name # names) v =
     (if map_of (vars v) name \<noteq> None
      then Inl (ParseError (''duplicate argument '' @ squote @ name @ squote
                             @ '' in function definition''))
      else (case Var_init name TYPE_PARAM (Some i) of
              Inl e \<Rightarrow> Inl e
            | Inr var \<Rightarrow> register_params (Suc i) names (v\<lparr>vars := vars v @ [(name, var)]\<rparr>)))"

definition FunctionBlockVisitor_init :: "arguments \<Rightarrow> error + visitor" where
  "FunctionBlockVisitor_init node_args =
     (case arg_names node_args of
        Inl e \<Rightarrow> Inl e
      | Inr names \<Rightarrow> register_params 0 names BlockVisitor_init)"

text \<open>
  Modelled from the spec: the driver, which is outside this file, makes the visitor
  for a function or class body and has it visit the direct statements of the body in
  source order.
\<close>

definition classify_function :: "arguments \<Rightarrow> stmt list \<Rightarrow> error + visitor" where
  "classify_function node_args body =
     (case FunctionBlockVisitor_init node_args of
        Inl e \<Rightarrow> Inl e
      | Inr v \<Rightarrow> visit_stmts True body v)"

definition classify_class :: "stmt list \<Rightarrow> error + visitor" where
  "classify_class body = visit_stmts False body BlockVisitor_init"

text \<open>
  In the words of the specification: the names bound directly in a body.  These are
  the assignment targets, with the elements of tuples and lists, the targets of
  \<open>for\<close>, the names bound by \<open>with\<close> and by \<open>except\<close>, the imported names, the
  names declared global and the names of nested class and function definitions; the
  bodies of nested definitions are left out.
\<close>

fun target_names :: "expr \<Rightarrow> string set"
  and targets_names :: "expr list \<Rightarrow> string set" where
  "target_names (Name ident) = {ident}"
| "target_names (Tuple elts) = targets_names elts"
| "target_names (List elts) = targets_names elts"
| "target_names (Yield val) = {}"
| "target_names (OtherExpr es) = {}"
| "targets_names [] = {}"
| "targets_names (t # ts) = target_names t \<union> targets_names ts"

fun handler_name :: "expr option \<Rightarrow> string set" where
  "handler_name (Some (Name ident)) = {ident}"
| "handler_name eo = {}"

fun bound_names :: "stmt \<Rightarrow> string set"
  and bound_names_list :: "stmt list \<Rightarrow> string set"
  and bound_names_handler :: "excepthandler \<Rightarrow> string set"
  and bound_names_handlers :: "excepthandler list \<Rightarrow> string set" where
  "bound_names (Assign targets val) = targets_names targets"
| "bound_names (AugAssign target val) = target_names target"
| "bound_names (ClassDef name bases body) = {name}"
| "bound_names (For target iter body orelse) =
     target_names target \<union> bound_names_list body \<union> bound_names_list orelse"
| "bound_names (FunctionDef name arguments body) = {name}"
| "bound_names (Global names) = set names"
| "bound_names (Import names) = set (map import_name names)"
| "bound_names (ImportFrom names) = set (map import_from_name names)"
| "bound_names (With context_expr optional_vars body) =
     (case optional_vars of None \<Rightarrow> {} | Some t \<Rightarrow> target_names t) \<union> bound_names_list body"
| "bound_names (TryExcept body handlers orelse) =
     bound_names_list body \<union> bound_names_handlers handlers \<union> bound_names_list orelse"
| "bound_names (OtherStmt es ss) = bound_names_list ss"
| "bound_names_list [] = {}"
| "bound_names_list (s # ss) = bound_names s \<union> bound_names_list ss"
| "bound_names_handler (ExceptHandler type' name body) =
     handler_name name \<union> bound_names_list body"
| "bound_names_handlers [] = {}"
| "bound_names_handlers (h # hs) = bound_names_handler h \<union> bound_names_handlers hs"

text \<open>
  One dictionary extends another by the names \<open>N\<close>: the old entries stay in front as
  they are, the keys grow by \<open>N\<close>, and no key is repeated if none was.
\<close>

definition ext_by :: "string set \<Rightarrow> (string \<times> Var) list \<Rightarrow> (string \<times> Var) list \<Rightarrow> bool" where
  "ext_by N xs ys \<longleftrightarrow>
     (\<exists>zs. ys = xs @ zs \<and> (\<forall>z \<in> set zs. var_type (snd z) \<noteq> TYPE_PARAM)) \<and>
     fst ` set ys = fst ` set xs \<union> N \<and>
     (distinct (map fst xs) \<longrightarrow> distinct (map fst ys))"

text \<open>Sample parameter lists and a sample body.\<close>

definition args_ab :: arguments where
  "args_ab = \<lparr> args = [Name ''a'', Name ''b''], vararg = Some ''rest'', kwarg = Some ''kw'',
               defaults = [] \<rparr>"

definition args_aa :: arguments where
  "args_aa = \<lparr> args = [Name ''a'', Name ''a''], vararg = None, kwarg = None, defaults = [] \<rparr>"

definition args_tuple :: arguments where
  "args_tuple = \<lparr> args = [Name ''a'', Tuple [Name ''b''], Name ''a''], vararg = None,
                  kwarg = None, defaults = [] \<rparr>"

definition no_args :: arguments where
  "no_args = \<lparr> args = [], vararg = None, kwarg = None, defaults = [] \<rparr>"

definition var_param :: "string \<Rightarrow> nat \<Rightarrow> Var" where
  "var_param name i = \<lparr> var_name = name, var_type = TYPE_PARAM,
     init_expr = Some (gr_pi @ ''Args['' @ dec i @ '']'') \<rparr>"

text \<open>
  The body \<^verbatim>\<open>global total; count = 0; def inner(): z = 0\<close>.
\<close>

definition body_total :: "stmt list" where
  "body_total = [Global [''total''], Assign [Name ''count''] (OtherExpr []),
                 FunctionDef ''inner'' no_args [Assign [Name ''z''] (OtherExpr [])]]"

subsection \<open>Notions used in the proofs\<close>

text \<open>
  Reading a decimal numeral back (it shows that the names of the temporaries differ),
  and the invariant of the two sets of temporaries.
\<close>

definition undec :: "string \<Rightarrow> nat" where
  "undec s = foldl (\<lambda>a c. 10 * a + (of_char c - 48)) 0 s"

definition temps_inv :: "Block \<Rightarrow> bool" where
  "temps_inv s \<longleftrightarrow>
     distinct (free_temps s) \<and> distinct (used_temps s) \<and>
     set (free_temps s) \<inter> set (used_temps s) = {} \<and>
     inj_on tv_name (set (free_temps s) \<union> set (used_temps s)) \<and>
     tv_name ` (set (free_temps s) \<union> set (used_temps s)) \<subseteq> temp_name ` {1 .. temp_index s}"

section \<open>Labels: the ids and the checkpoint set\<close>

lemma genlabel_fst: "fst (genlabel c self) = Suc (label_count self)"
  by (simp add: genlabel_def Let_def)

lemma genlabel_count: "label_count (snd (genlabel c self)) = Suc (label_count self)"
  by (simp add: genlabel_def Let_def)

lemma genlabel_checkpoints:
  "checkpoints (snd (genlabel c self)) =
     (if c then insert (Suc (label_count self)) (checkpoints self) else checkpoints self)"
  by (simp add: genlabel_def Let_def)

lemma genlabels_ids:
  "fst (genlabels cs self) = [Suc (label_count self) ..< Suc (label_count self + length cs)]"
proof (induction cs arbitrary: self)
  case Nil
  show ?case by simp
next
  case (Cons c cs)
  obtain i self1 where g: "genlabel c self = (i, self1)"
    by (cases "genlabel c self")
  obtain ids self2 where gs: "genlabels cs self1 = (ids, self2)"
    by (cases "genlabels cs self1")
  have i: "i = Suc (label_count self)" and c1: "label_count self1 = Suc (label_count self)"
    using genlabel_fst [of c self] genlabel_count [of c self] g by simp_all
  have "ids = [Suc (Suc (label_count self)) ..< Suc (Suc (label_count self) + length cs)]"
    using Cons.IH [of self1] gs c1 by simp
  then show ?case
    using g gs i by (simp add: upt_conv_Cons del: upt_Suc)
qed

lemma genlabels_checkpoints:
  "checkpoints (snd (genlabels cs self)) =
     checkpoints self \<union> set (map fst (filter snd (zip (fst (genlabels cs self)) cs)))"
proof (induction cs arbitrary: self)
  case Nil
  show ?case by simp
next
  case (Cons c cs)
  obtain i self1 where g: "genlabel c self = (i, self1)"
    by (cases "genlabel c self")
  obtain ids self2 where gs: "genlabels cs self1 = (ids, self2)"
    by (cases "genlabels cs self1")
  have cp: "checkpoints self1 = (if c then insert i (checkpoints self) else checkpoints self)"
    using genlabel_fst [of c self] genlabel_checkpoints [of c self] g by simp
  have "checkpoints self2 = checkpoints self1 \<union> set (map fst (filter snd (zip ids cs)))"
    using Cons.IH [of self1] gs by simp
  then show ?case
    using g gs cp by auto
qed

lemma new_scope_labels:
  "label_count (base (ModuleBlock_init fpn rt lr fn ls)) = 0 \<and>
   checkpoints (base (ModuleBlock_init fpn rt lr fn ls)) = {}"
  "label_count (base (ClassBlock_init p nm g)) = 0 \<and>
   checkpoints (base (ClassBlock_init p nm g)) = {}"
  "label_count (base (FunctionBlock_init p nm vs is_gen)) = 0 \<and>
   checkpoints (base (FunctionBlock_init p nm vs is_gen)) = {}"
  by (simp_all add: ModuleBlock_init_def ClassBlock_init_def FunctionBlock_init_def
      Block_init_def)

text \<open>
  C7.  In every scope, whatever its state, the ids returned by successive calls of
  \<open>genlabel\<close> are the numbers that follow its label count, one after the other,
  hence strictly increasing, and the calls add to the checkpoint set exactly the ids
  returned by the calls made with \<open>is_checkpoint\<close> true.  A scope whose label count
  is 0 and whose checkpoint set is empty returns 1, 2, 3, ... and its checkpoint set
  is then exactly the set of those ids; every new scope, module, class or function,
  generator or not, is in that state.
\<close>

theorem C7_genlabel_ids_and_checkpoints:
  "fst (genlabels cs s) = [Suc (label_count s) ..< Suc (label_count s + length cs)] \<and>
   sorted_wrt (<) (fst (genlabels cs s)) \<and>
   checkpoints (snd (genlabels cs s)) =
     checkpoints s \<union> set (map fst (filter snd (zip (fst (genlabels cs s)) cs))) \<and>
   (label_count s = 0 \<and> checkpoints s = {} \<longrightarrow>
      fst (genlabels cs s) = [1 ..< Suc (length cs)] \<and>
      checkpoints (snd (genlabels cs s)) =
        set (map fst (filter snd (zip (fst (genlabels cs s)) cs)))) \<and>
   label_count (base (ModuleBlock_init fpn rt lr fn ls)) = 0 \<and>
   checkpoints (base (ModuleBlock_init fpn rt lr fn ls)) = {} \<and>
   label_count (base (ClassBlock_init p nm g)) = 0 \<and>
   checkpoints (base (ClassBlock_init p nm g)) = {} \<and>
   label_count (base (FunctionBlock_init p nm vs is_gen)) = 0 \<and>
   checkpoints (base (FunctionBlock_init p nm vs is_gen)) = {}"
proof -
  have ids: "fst (genlabels cs s) = [Suc (label_count s) ..< Suc (label_count s + length cs)]"
    by (rule genlabels_ids)
  have cps: "checkpoints (snd (genlabels cs s)) =
      checkpoints s \<union> set (map fst (filter snd (zip (fst (genlabels cs s)) cs)))"
    by (rule genlabels_checkpoints)
  have srt: "sorted_wrt (<) (fst (genlabels cs s))"
    unfolding ids by (rule sorted_wrt_upt)
  have new: "label_count s = 0 \<and> checkpoints s = {} \<longrightarrow>
      fst (genlabels cs s) = [1 ..< Suc (length cs)] \<and>
      checkpoints (snd (genlabels cs s)) =
        set (map fst (filter snd (zip (fst (genlabels cs s)) cs)))"
    using ids cps by simp
  from ids srt cps new new_scope_labels
  show ?thesis by blast
qed

theorem C7_genlabel_witness:
  "label_count (base (FunctionBlock_init (Some m0) ''f'' [] True)) = 0 \<and>
   checkpoints (base (FunctionBlock_init (Some m0) ''f'' [] True)) = {} \<and>
   fst (genlabels [False, True, False, True] (base (FunctionBlock_init (Some m0) ''f'' [] True)))
     = [1, 2, 3, 4] \<and>
   checkpoints (snd (genlabels [False, True, False, True]
       (base (FunctionBlock_init (Some m0) ''f'' [] True)))) = {2, 4}"
proof -
  let ?s = "base (FunctionBlock_init (Some m0) ''f'' [] True)"
  have new: "label_count ?s = 0 \<and> checkpoints ?s = {}"
    by (simp add: FunctionBlock_init_def Block_init_def)
  have ids: "fst (genlabels [False, True, False, True] ?s) = [1, 2, 3, 4]"
    by (simp add: genlabel_def Let_def FunctionBlock_init_def Block_init_def)
  show ?thesis
    using C7_genlabel_ids_and_checkpoints [of "[False, True, False, True]" ?s] new
    unfolding ids by simp
qed

section \<open>Temporaries: names, the invariant of the two sets, and reuse\<close>

lemma undec_snoc: "undec (s @ [c]) = 10 * undec s + (of_char c - 48)"
  by (simp add: undec_def)

lemma of_char_digit: "d < 10 \<Longrightarrow> of_char (digit d) = (48 + d :: nat)"
  by (simp add: digit_def)

lemma undec_dec: "undec (dec n) = n"
proof (induction n rule: dec.induct)
  case (1 n)
  show ?case
  proof (cases "n < 10")
    case True
    then show ?thesis
      by (subst dec.simps) (simp add: undec_def of_char_digit)
  next
    case False
    then have "undec (dec n) = 10 * undec (dec (n div 10)) + (of_char (digit (n mod 10)) - 48)"
      by (subst dec.simps) (simp add: undec_snoc)
    also have "\<dots> = 10 * (n div 10) + n mod 10"
      using 1 False by (simp add: of_char_digit)
    finally show ?thesis by simp
  qed
qed

lemma undec_zeros: "undec (replicate k (CHR ''0'') @ s) = undec s"
proof -
  have "foldl (\<lambda>a c. 10 * a + (of_char c - 48)) 0 (replicate k (CHR ''0'')) = (0::nat)"
    by (induction k) simp_all
  then show ?thesis by (simp add: undec_def)
qed

lemma undec_dec03: "undec (dec03 n) = n"
  by (simp add: dec03_def undec_zeros undec_dec)

lemma temp_name_inj: "temp_name i = temp_name j \<Longrightarrow> i = j"
  by (metis temp_name_def same_append_eq undec_dec03)

lemma find_sorted_least:
  "sorted (map f ys) \<Longrightarrow> find P ys = Some v \<Longrightarrow> w \<in> set ys \<Longrightarrow> P w \<Longrightarrow> f v \<le> f w"
  by (induction ys) (auto split: if_splits)

lemma find_Some_mem: "find P xs = Some x \<Longrightarrow> P x \<and> x \<in> set xs"
  by (induction xs) (auto split: if_splits)

lemma pick_SomeD:
  assumes "find (\<lambda>v. tv_type v = t) (sort_key tv_name fs) = Some v"
  shows "v \<in> set fs" and "tv_type v = t"
    and "\<And>w. w \<in> set fs \<Longrightarrow> tv_type w = t \<Longrightarrow> tv_name v \<le> tv_name w"
proof -
  from assms show "v \<in> set fs" and "tv_type v = t"
    using find_Some_mem [of "\<lambda>v. tv_type v = t" "sort_key tv_name fs" v] by simp_all
  fix w assume "w \<in> set fs" "tv_type w = t"
  then show "tv_name v \<le> tv_name w"
    using find_sorted_least [of tv_name "sort_key tv_name fs" "\<lambda>v. tv_type v = t" v w] assms
    by simp
qed

lemma pick_SomeI:
  assumes inj: "inj_on tv_name (set fs)"
    and v: "v \<in> set fs" "tv_type v = t"
    and least: "\<And>w. w \<in> set fs \<Longrightarrow> tv_type w = t \<Longrightarrow> tv_name v \<le> tv_name w"
  shows "find (\<lambda>v. tv_type v = t) (sort_key tv_name fs) = Some v"
proof (cases "find (\<lambda>v. tv_type v = t) (sort_key tv_name fs)")
  case None
  with v show ?thesis by (auto simp: find_None_iff)
next
  case (Some u)
  have u: "u \<in> set fs" "tv_type u = t" and le: "tv_name u \<le> tv_name v"
    using pick_SomeD [OF Some] v by auto
  have "tv_name v \<le> tv_name u" using least u by blast
  with le have "tv_name u = tv_name v" by simp
  with inj u(1) v(1) have "u = v" by (auto dest: inj_onD)
  with Some show ?thesis by simp
qed

lemma temps_inv_init: "temps_inv (Block_init nm)"
  by (simp add: temps_inv_def Block_init_def)

lemma temps_inv_fresh:
  assumes "temps_inv s"
  shows "\<lparr> tv_name = temp_name (Suc (temp_index s)), tv_type = t \<rparr>
           \<notin> set (free_temps s) \<union> set (used_temps s)"
proof
  let ?v = "\<lparr> tv_name = temp_name (Suc (temp_index s)), tv_type = t \<rparr>"
  assume "?v \<in> set (free_temps s) \<union> set (used_temps s)"
  then have "tv_name ?v \<in> temp_name ` {1 .. temp_index s}"
    using assms unfolding temps_inv_def by blast
  then obtain i where "i \<in> {1 .. temp_index s}" "temp_name (Suc (temp_index s)) = temp_name i"
    by auto
  then show False using temp_name_inj [of "Suc (temp_index s)" i] by simp
qed

lemma temps_inv_alloc:
  assumes "temps_inv s"
  shows "temps_inv (snd (alloc_temp t s))"
proof (cases "find (\<lambda>v. tv_type v = t) (sort_key tv_name (free_temps s))")
  case None
  let ?v = "\<lparr> tv_name = temp_name (Suc (temp_index s)), tv_type = t \<rparr>"
  have fresh: "?v \<notin> set (free_temps s) \<union> set (used_temps s)"
    by (rule temps_inv_fresh [OF assms])
  have names: "tv_name ` (set (free_temps s) \<union> set (used_temps s)) \<subseteq> temp_name ` {1 .. temp_index s}"
    using assms by (simp add: temps_inv_def)
  have newname: "tv_name ?v \<notin> tv_name ` (set (free_temps s) \<union> set (used_temps s))"
  proof
    assume "tv_name ?v \<in> tv_name ` (set (free_temps s) \<union> set (used_temps s))"
    with names have "temp_name (Suc (temp_index s)) \<in> temp_name ` {1 .. temp_index s}"
      by auto
    then obtain i where "i \<in> {1 .. temp_index s}" "temp_name (Suc (temp_index s)) = temp_name i"
      by blast
    then show False using temp_name_inj [of "Suc (temp_index s)" i] by simp
  qed
  have sub: "temp_name ` {1 .. temp_index s} \<subseteq> temp_name ` {1 .. Suc (temp_index s)}"
    by auto
  have diff: "set (free_temps s) \<union> set (used_temps s) - {?v} =
      set (free_temps s) \<union> set (used_temps s)"
    using fresh by blast
  have inj: "inj_on tv_name (insert ?v (set (free_temps s) \<union> set (used_temps s)))"
    using assms newname diff by (simp add: temps_inv_def)
  show ?thesis
    using None assms fresh names sub inj
    by (auto simp: alloc_temp_def Let_def temps_inv_def List.insert_def)
next
  case (Some v)
  have v: "v \<in> set (free_temps s)" by (rule pick_SomeD(1) [OF Some])
  then have vu: "v \<notin> set (used_temps s)"
    using assms by (auto simp: temps_inv_def)
  have un: "set (remove1 v (free_temps s)) \<union> insert v (set (used_temps s)) =
      set (free_temps s) \<union> set (used_temps s)"
    using v assms by (auto simp: temps_inv_def)
  show ?thesis
    using Some assms v vu un
    by (auto simp: alloc_temp_def temps_inv_def List.insert_def)
qed

lemma temps_inv_free:
  assumes "temps_inv s" and "free_temp v s = Inr s'"
  shows "temps_inv s'"
proof -
  have v: "v \<in> set (used_temps s)"
    and s': "s' = s\<lparr>used_temps := remove1 v (used_temps s),
                   free_temps := List.insert v (free_temps s)\<rparr>"
    using assms(2) by (auto simp: free_temp_def split: if_splits)
  have vf: "v \<notin> set (free_temps s)"
    using v assms(1) by (auto simp: temps_inv_def)
  have un: "insert v (set (free_temps s)) \<union> set (remove1 v (used_temps s)) =
      set (free_temps s) \<union> set (used_temps s)"
    using v assms(1) by (auto simp: temps_inv_def)
  show ?thesis
    using assms(1) v vf un unfolding s'
    by (auto simp: temps_inv_def List.insert_def)
qed

lemma reachable_temps_inv: "reachable s \<Longrightarrow> temps_inv s"
proof (induction rule: reachable.induct)
  case (reach_init nm)
  show ?case by (rule temps_inv_init)
next
  case (reach_alloc s t)
  then show ?case by (simp add: temps_inv_alloc)
next
  case (reach_free s v s')
  then show ?case by (blast intro: temps_inv_free)
next
  case (reach_label s c)
  then show ?case by (simp add: temps_inv_def genlabel_def Let_def)
next
  case (reach_loop s)
  then show ?case
    by (simp add: temps_inv_def push_loop_def genlabel_def Let_def split: prod.splits)
next
  case (reach_pop s s')
  from reach_pop(2) have "s' = s\<lparr>loop_stack := butlast (loop_stack s)\<rparr>"
    by (simp add: pop_loop_def split: if_splits)
  with reach_pop(3) show ?case
    by (simp add: temps_inv_def)
next
  case (reach_gen s g)
  then show ?case by (simp add: temps_inv_def)
qed

lemma alloc_temp_type: "tv_type (fst (alloc_temp t s)) = t"
  by (auto simp: alloc_temp_def Let_def split: option.splits dest: find_Some_mem)

lemma alloc_temp_used: "fst (alloc_temp t s) \<in> set (used_temps (snd (alloc_temp t s)))"
  by (simp add: alloc_temp_def Let_def split: option.splits)

lemma alloc_temp_not_used:
  assumes "temps_inv s"
  shows "fst (alloc_temp t s) \<notin> set (used_temps s)"
proof (cases "find (\<lambda>v. tv_type v = t) (sort_key tv_name (free_temps s))")
  case None
  then show ?thesis
    using temps_inv_fresh [OF assms, of t] by (simp add: alloc_temp_def Let_def)
next
  case (Some v)
  have "v \<in> set (free_temps s)" by (rule pick_SomeD(1) [OF Some])
  then show ?thesis
    using Some assms by (auto simp: alloc_temp_def temps_inv_def)
qed

lemma alloc_temp_free_set:
  assumes "temps_inv s"
  shows "insert (fst (alloc_temp t s)) (set (free_temps (snd (alloc_temp t s)))) =
         insert (fst (alloc_temp t s)) (set (free_temps s))"
proof (cases "find (\<lambda>v. tv_type v = t) (sort_key tv_name (free_temps s))")
  case None
  then show ?thesis by (simp add: alloc_temp_def Let_def)
next
  case (Some v)
  have "v \<in> set (free_temps s)" by (rule pick_SomeD(1) [OF Some])
  then show ?thesis
    using Some assms by (auto simp: alloc_temp_def temps_inv_def)
qed

lemma alloc_temp_least:
  assumes "w \<in> set (free_temps s)" "tv_type w = t"
  shows "tv_name (fst (alloc_temp t s)) \<le> tv_name w"
proof (cases "find (\<lambda>v. tv_type v = t) (sort_key tv_name (free_temps s))")
  case None
  with assms show ?thesis by (auto simp: find_None_iff)
next
  case (Some v)
  then show ?thesis
    using pick_SomeD(3) [OF Some] assms by (simp add: alloc_temp_def)
qed

lemma alloc_free_alloc:
  assumes inv: "temps_inv s"
  shows "\<exists>s2. free_temp (fst (alloc_temp t s)) (snd (alloc_temp t s)) = Inr s2 \<and>
              fst (alloc_temp t s2) = fst (alloc_temp t s)"
proof -
  define v where "v = fst (alloc_temp t s)"
  define s1 where "s1 = snd (alloc_temp t s)"
  define s2 where "s2 = s1\<lparr>used_temps := remove1 v (used_temps s1),
                           free_temps := List.insert v (free_temps s1)\<rparr>"
  have used: "v \<in> set (used_temps s1)"
    unfolding v_def s1_def by (rule alloc_temp_used)
  then have fr: "free_temp v s1 = Inr s2"
    by (simp add: free_temp_def s2_def)
  have inv1: "temps_inv s1"
    unfolding s1_def by (rule temps_inv_alloc [OF inv])
  have inv2: "temps_inv s2"
    by (rule temps_inv_free [OF inv1 fr])
  have fs: "set (free_temps s2) = insert v (set (free_temps s))"
    using alloc_temp_free_set [OF inv, of t] by (simp add: s2_def v_def s1_def)
  have inj: "inj_on tv_name (set (free_temps s2))"
    using inv2 by (auto simp: temps_inv_def intro: inj_on_subset)
  have least: "tv_name v \<le> tv_name w" if "w \<in> set (free_temps s2)" "tv_type w = t" for w
    using that fs alloc_temp_least [of w s t] by (auto simp: v_def)
  have "find (\<lambda>v. tv_type v = t) (sort_key tv_name (free_temps s2)) = Some v"
  proof (rule pick_SomeI [OF inj])
    show "v \<in> set (free_temps s2)" using fs by simp
    show "tv_type v = t" unfolding v_def by (rule alloc_temp_type)
  qed (rule least)
  then have "fst (alloc_temp t s2) = v"
    by (simp add: alloc_temp_def)
  with fr show ?thesis
    unfolding v_def s1_def by blast
qed

text \<open>
  C6.  In every reachable state of a scope's allocator, \<open>alloc_temp\<close> returns a
  descriptor that is not in the used set at the time of the call; and when the
  returned descriptor is freed at once and \<open>alloc_temp\<close> is called again with the
  same type, the free succeeds and the second call returns the same descriptor, hence
  one with the same generated name.
\<close>

theorem C6_alloc_temp_reuse:
  assumes "reachable s"
  shows "fst (alloc_temp t s) \<notin> set (used_temps s) \<and>
         (\<exists>s2. free_temp (fst (alloc_temp t s)) (snd (alloc_temp t s)) = Inr s2 \<and>
               fst (alloc_temp t s2) = fst (alloc_temp t s) \<and>
               tv_name (fst (alloc_temp t s2)) = tv_name (fst (alloc_temp t s)))"
proof -
  have inv: "temps_inv s"
    by (rule reachable_temps_inv [OF assms])
  show ?thesis
    using alloc_temp_not_used [OF inv, of t] alloc_free_alloc [OF inv, of t] by auto
qed

theorem C6_alloc_temp_witness:
  "reachable (snd (alloc_temp ''int'' (Block_init ''f''))) \<and>
   fst (alloc_temp ''int'' (snd (alloc_temp ''int'' (Block_init ''f''))))
     \<notin> set (used_temps (snd (alloc_temp ''int'' (Block_init ''f''))))"
  using C6_alloc_temp_reuse [OF reach_alloc [OF reach_init], of "''int''" "''int''" "''f''"]
    reach_alloc [OF reach_init, of "''int''" "''f''"]
  by simp

section \<open>The module at the root\<close>

lemma module_block_is_module: "module_block self = Some m \<Longrightarrow> is_module m"
  by (induction self rule: module_block.induct) auto

lemma at_module_eq:
  "at_module f self =
     (case module_block self of
        None \<Rightarrow> None
      | Some m \<Rightarrow> Some (fst (f m), set_module (snd (f m)) self))"
  by (induction f self rule: at_module.induct) (auto split: option.splits prod.splits)

lemma module_block_set_module:
  "module_block self = Some m \<Longrightarrow> is_module m' \<Longrightarrow> module_block (set_module m' self) = Some m'"
  by (induction self rule: module_block.induct) (auto elim: is_module.elims)

lemma base_set_module:
  "\<not> is_module self \<Longrightarrow> base (set_module m' self) = base self"
  by (induction m' self rule: set_module.induct) auto

lemma set_module_same: "module_block self = Some m \<Longrightarrow> set_module m self = self"
  by (induction self rule: module_block.induct) auto

lemma block_strings_module:
  "block_strings self = Some S \<Longrightarrow> \<exists>b mf. module_block self = Some (ModuleBlock b mf) \<and> strings mf = S"
  by (auto simp: block_strings_def split: option.splits block.splits)

lemma block_strings_None: "block_strings self = None \<longleftrightarrow> module_block self = None"
  using module_block_is_module [of self]
  by (auto simp: block_strings_def split: option.splits block.splits)

section \<open>Interned strings\<close>

lemma intern_long:
  "length s > 64 \<or> non_word_re_search s \<Longrightarrow>
   intern u s self = (Inr (gr_pi @ ''g.NewStr('' @ go_str u s @ '')''), self)"
  by (simp add: intern_def)

lemma intern_no_module:
  "\<not> (length s > 64 \<or> non_word_re_search s) \<Longrightarrow> module_block self = None \<Longrightarrow>
   intern u s self = (Inl AttributeError, self)"
  by (simp add: intern_def at_module_eq)

lemma intern_short:
  assumes short: "\<not> (length s > 64 \<or> non_word_re_search s)"
    and m: "module_block self = Some (ModuleBlock b mf)"
  shows "intern u s self =
    (Inr (sharp_s @ s), set_module (ModuleBlock b (mf\<lparr>strings := insert s (strings mf)\<rparr>)) self)"
  using short m by (simp add: intern_def at_module_eq strings_add_def)

lemma intern_short_strings:
  assumes short: "\<not> (length s > 64 \<or> non_word_re_search s)"
    and S: "block_strings self = Some S"
  shows "\<exists>self'. intern u s self = (Inr (sharp_s @ s), self') \<and>
           block_strings self' = Some (insert s S) \<and>
           intern u s self' = (Inr (sharp_s @ s), self') \<and>
           (\<not> is_module self \<longrightarrow> base self' = base self)"
proof -
  obtain b mf where m: "module_block self = Some (ModuleBlock b mf)" and mf: "strings mf = S"
    using block_strings_module [OF S] by blast
  let ?m' = "ModuleBlock b (mf\<lparr>strings := insert s S\<rparr>)"
  let ?self' = "set_module ?m' self"
  have 1: "intern u s self = (Inr (sharp_s @ s), ?self')"
    using intern_short [OF short m, of u] mf by simp
  have m': "module_block ?self' = Some ?m'"
    by (rule module_block_set_module [OF m]) simp
  then have 2: "block_strings ?self' = Some (insert s S)"
    by (simp add: block_strings_def)
  have "intern u s ?self' = (Inr (sharp_s @ s), set_module ?m' ?self')"
    using intern_short [OF short m', of u] by simp
  then have 3: "intern u s ?self' = (Inr (sharp_s @ s), ?self')"
    by (simp add: set_module_same [OF m'])
  have 4: "\<not> is_module self \<longrightarrow> base ?self' = base self"
    by (simp add: base_set_module)
  from 1 2 3 4 show ?thesis by blast
qed

lemma intern_result:
  "module_block self \<noteq> None \<Longrightarrow>
   fst (intern u s self) =
     Inr (if length s > 64 \<or> non_word_re_search s
          then gr_pi @ ''g.NewStr('' @ go_str u s @ '')'' else sharp_s @ s)"
  by (auto simp: intern_def at_module_eq)

text \<open>
  C9.  When \<open>s\<close> is longer than 64 bytes or has a byte outside the identifier
  alphabet, \<open>intern\<close> leaves the block, and with it the string set, as it is and
  returns the expression that makes a new string, at every call.  Otherwise, in a
  block whose chain reaches a module, it returns the reference made from \<open>s\<close>, the
  string set becomes the old one with \<open>s\<close> added, and a second call returns the same
  reference and changes nothing.
\<close>

theorem C9_intern:
  "(length s > 64 \<or> non_word_re_search s \<longrightarrow>
      intern u s self = (Inr (gr_pi @ ''g.NewStr('' @ go_str u s @ '')''), self)) \<and>
   (\<not> (length s > 64 \<or> non_word_re_search s) \<and> block_strings self = Some S \<longrightarrow>
      (\<exists>self'. intern u s self = (Inr (sharp_s @ s), self') \<and>
              block_strings self' = Some (insert s S) \<and>
              intern u s self' = (Inr (sharp_s @ s), self')))"
  using intern_long [of s u self] intern_short_strings [of s self S u] by blast

theorem C9_intern_witness:
  "intern util0 ''a b'' k_mid = (Inr (gr_pi @ ''g.NewStr('' @ go_str util0 ''a b'' @ '')''), k_mid) \<and>
   block_strings k_mid = Some {} \<and>
   (\<exists>self'. intern util0 ''foo'' k_mid = (Inr (sharp_s @ ''foo''), self') \<and>
      block_strings self' = Some {''foo''} \<and>
      intern util0 ''foo'' self' = (Inr (sharp_s @ ''foo''), self'))"
proof -
  have 1: "length ''a b'' > 64 \<or> non_word_re_search ''a b''"
    by (simp add: non_word_re_search_def word_char_def)
  have 2: "\<not> (length ''foo'' > 64 \<or> non_word_re_search ''foo'')"
    by (simp add: non_word_re_search_def word_char_def)
  have 3: "block_strings k_mid = Some {}"
    by (simp add: block_strings_def k_mid_def f_outer_def m0_def ModuleBlock_init_def)
  show ?thesis
    using C9_intern [where s = "''a b''" and u = util0 and self = k_mid and S = "{}"]
      C9_intern [where s = "''foo''" and u = util0 and self = k_mid and S = "{}"] 1 2 3
    by simp
qed

section \<open>Deleting and binding in a function block\<close>

lemma call_module_eq:
  "call_module f w self =
     (case module_block self of
        None \<Rightarrow> (Inl AttributeError, self, w)
      | Some m \<Rightarrow> (fst (f m), set_module (fst (snd (f m))) self, snd (snd (f m))))"
  by (simp add: call_module_def at_module_eq split: option.splits prod.splits)

lemma ModuleBlock_del_var_is_module:
  "is_module m \<Longrightarrow> is_module (fst (snd (ModuleBlock_del_var u w name m)))"
  by (cases m)
     (auto simp: ModuleBlock_del_var_def intern_def strings_add_def split: prod.splits sum.splits)

text \<open>
  C5.  In a function block, \<open>del_var\<close> of a name that is not in the variable map fails
  with the compiler's \<open>ParseError\<close> and writes nothing.  For a name of kind Global it
  gives the result and the written code of \<open>del_var\<close> called on the module at the
  root, and the root becomes what that call leaves.  For a name of any other kind it
  writes the checked call that tests that the local is bound and after it the
  assignment of the unbound value, in this order.
\<close>

theorem C5_function_del_var:
  "(map_of vs name = None \<longrightarrow>
      del_var u w name (FunctionBlock b p vs) =
        (Inl (ParseError (''cannot delete nonexistent local: '' @ name)),
         FunctionBlock b p vs, w)) \<and>
   (map_of vs name = Some var \<and> var_type var = TYPE_GLOBAL \<and>
    module_block (FunctionBlock b p vs) = Some m \<longrightarrow>
      (\<exists>self'. del_var u w name (FunctionBlock b p vs) =
                 (fst (del_var u w name m), self', snd (snd (del_var u w name m))) \<and>
               module_block self' = Some (fst (snd (del_var u w name m))))) \<and>
   (map_of vs name = Some var \<and> var_type var \<noteq> TYPE_GLOBAL \<longrightarrow>
      del_var u w name (FunctionBlock b p vs) =
        (Inr (), FunctionBlock b p vs,
         w @ [Write_checked_call1 fmt_CheckLocal [adjust_local_name u name, go_str u name],
              Write (adjust_local_name u name @ '' = '' @ gr_pi @ ''g.UnboundLocal'')]))"
proof (intro conjI impI)
  assume "map_of vs name = None"
  then show "del_var u w name (FunctionBlock b p vs) =
        (Inl (ParseError (''cannot delete nonexistent local: '' @ name)),
         FunctionBlock b p vs, w)"
    by simp
next
  assume a: "map_of vs name = Some var \<and> var_type var = TYPE_GLOBAL \<and>
    module_block (FunctionBlock b p vs) = Some m"
  then have im: "is_module m" by (blast intro: module_block_is_module)
  then have dm: "del_var u w name m = ModuleBlock_del_var u w name m"
    by (cases m) simp_all
  let ?r = "ModuleBlock_del_var u w name m"
  have "del_var u w name (FunctionBlock b p vs) =
      (fst ?r, set_module (fst (snd ?r)) (FunctionBlock b p vs), snd (snd ?r))"
    using a by (simp add: call_module_eq)
  moreover have "module_block (set_module (fst (snd ?r)) (FunctionBlock b p vs)) = Some (fst (snd ?r))"
    using a ModuleBlock_del_var_is_module [OF im] by (blast intro: module_block_set_module)
  ultimately show "\<exists>self'. del_var u w name (FunctionBlock b p vs) =
                 (fst (del_var u w name m), self', snd (snd (del_var u w name m))) \<and>
               module_block self' = Some (fst (snd (del_var u w name m)))"
    unfolding dm by blast
next
  assume "map_of vs name = Some var \<and> var_type var \<noteq> TYPE_GLOBAL"
  then show "del_var u w name (FunctionBlock b p vs) =
        (Inr (), FunctionBlock b p vs,
         w @ [Write_checked_call1 fmt_CheckLocal [adjust_local_name u name, go_str u name],
              Write (adjust_local_name u name @ '' = '' @ gr_pi @ ''g.UnboundLocal'')])"
    by (simp add: Let_def)
qed

text \<open>
  C10.  In a function block, \<open>bind_var\<close> of a name that is not in the variable map
  fails with \<open>KeyError\<close>, the error of the dictionary lookup, leaving the block and the
  writer as they were; \<open>del_var\<close> of the same name fails with the compiler's
  \<open>ParseError\<close>.
\<close>

theorem C10_bind_var_missing_name:
  "map_of vs name = None \<Longrightarrow>
   bind_var u w name val (FunctionBlock b p vs) = (Inl KeyError, FunctionBlock b p vs, w) \<and>
   del_var u w name (FunctionBlock b p vs) =
     (Inl (ParseError (''cannot delete nonexistent local: '' @ name)), FunctionBlock b p vs, w)"
  by simp

theorem C5_function_del_var_witness:
  "del_var util0 [] ''y'' (FunctionBlock (Block_init ''f'') (Some m0) vars1) =
     (Inl (ParseError ''cannot delete nonexistent local: y''),
      FunctionBlock (Block_init ''f'') (Some m0) vars1, []) \<and>
   fst (del_var util0 [] ''g'' (FunctionBlock (Block_init ''f'') (Some m0) vars1)) = Inr () \<and>
   snd (snd (del_var util0 [] ''g'' (FunctionBlock (Block_init ''f'') (Some m0) vars1))) =
     [Write_checked_call1 fmt_DelVar_Globals [sharp_s @ ''g'']] \<and>
   del_var util0 [] ''x'' (FunctionBlock (Block_init ''f'') (Some m0) vars1) =
     (Inr (), FunctionBlock (Block_init ''f'') (Some m0) vars1,
      [Write_checked_call1 fmt_CheckLocal [adjust_local_name util0 ''x'', go_str util0 ''x''],
       Write (adjust_local_name util0 ''x'' @ '' = '' @ gr_pi @ ''g.UnboundLocal'')])"
proof -
  have y: "map_of vars1 ''y'' = None"
    by (simp add: vars1_def)
  have g: "map_of vars1 ''g'' = Some (var_global ''g'')" "var_type (var_global ''g'') = TYPE_GLOBAL"
    by (simp_all add: vars1_def var_global_def)
  have x: "map_of vars1 ''x'' = Some (var_local ''x'')" "var_type (var_local ''x'') \<noteq> TYPE_GLOBAL"
    by (simp_all add: vars1_def var_local_def)
  have m: "module_block (FunctionBlock (Block_init ''f'') (Some m0) vars1) = Some m0"
    by (simp add: m0_def ModuleBlock_init_def)
  have dm: "del_var util0 [] ''g'' m0 =
      (Inr (), ModuleBlock (Block_init ''<module>'')
         \<lparr> full_package_name = ''__main__'', runtime = ''grumpy'', libroot = ''lib'',
           filename = ''a.py'', lines = [], strings = {''g''}, import_table = [] \<rparr>,
       [Write_checked_call1 fmt_DelVar_Globals [sharp_s @ ''g'']])"
    by (simp add: m0_def ModuleBlock_init_def ModuleBlock_del_var_def intern_def
        non_word_re_search_def word_char_def strings_add_def)
  show ?thesis
    using C5_function_del_var [where vs = vars1 and name = "''y''" and u = util0 and w = "[]"
        and b = "Block_init ''f''" and p = "Some m0"]
      C5_function_del_var [where vs = vars1 and name = "''g''" and u = util0 and w = "[]"
        and b = "Block_init ''f''" and p = "Some m0" and m = m0
        and var = "var_global ''g''"]
      C5_function_del_var [where vs = vars1 and name = "''x''" and u = util0 and w = "[]"
        and b = "Block_init ''f''" and p = "Some m0"
        and var = "var_local ''x''"]
      y g x m dm
    by auto
qed

theorem C10_bind_var_missing_name_witness:
  "map_of vars1 ''y'' = None \<and>
   bind_var util0 [] ''y'' ''v'' (FunctionBlock (Block_init ''f'') (Some m0) vars1) =
     (Inl KeyError, FunctionBlock (Block_init ''f'') (Some m0) vars1, []) \<and>
   del_var util0 [] ''y'' (FunctionBlock (Block_init ''f'') (Some m0) vars1) =
     (Inl (ParseError ''cannot delete nonexistent local: y''),
      FunctionBlock (Block_init ''f'') (Some m0) vars1, [])"
proof -
  have y: "map_of vars1 ''y'' = None"
    by (simp add: vars1_def)
  show ?thesis
    using C10_bind_var_missing_name [OF y, of util0 "[]" "''v''" "Block_init ''f''" "Some m0"] y
    by simp
qed

section \<open>Resolving a name in a class block\<close>

lemma class_resolve_name:
  assumes m: "module_block (ClassBlock b p g) \<noteq> None"
    and l: "(if name \<notin> g then class_local u name p else Inr ''nil'') = Inr local"
  shows "\<exists>self'. resolve_name u w name (ClassBlock b p g) =
           (Inr (TempVar (fst (alloc_temp default_type b))), self',
            w @ [Write_checked_call2 (fst (alloc_temp default_type b)) fmt_ResolveClass
                   [local, if length name > 64 \<or> non_word_re_search name
                           then gr_pi @ ''g.NewStr('' @ go_str u name @ '')''
                           else sharp_s @ name]]) \<and>
           base self' = snd (alloc_temp default_type b)"
proof -
  obtain t b' where a: "alloc_temp default_type b = (t, b')"
    by (cases "alloc_temp default_type b")
  let ?self1 = "ClassBlock b' p g"
  have m1: "module_block ?self1 \<noteq> None"
    using m by (cases p) simp_all
  obtain r self2 where i: "intern u name ?self1 = (r, self2)"
    by (cases "intern u name ?self1")
  have r: "r = Inr (if length name > 64 \<or> non_word_re_search name
                           then gr_pi @ ''g.NewStr('' @ go_str u name @ '')''
                           else sharp_s @ name)"
    using intern_result [OF m1, of u name] i by simp
  have b2: "base self2 = b'"
  proof (cases "length name > 64 \<or> non_word_re_search name")
    case True
    then show ?thesis using i by (auto simp: intern_def)
  next
    case False
    obtain mm where mm: "module_block ?self1 = Some mm" using m1 by blast
    have "self2 = set_module (snd (strings_add name mm)) ?self1"
      using i False mm by (simp add: intern_def at_module_eq)
    then show ?thesis by (simp add: base_set_module)
  qed
  have "resolve_name u w name (ClassBlock b p g) =
      (Inr (TempVar t), self2,
       w @ [Write_checked_call2 t fmt_ResolveClass
              [local, if length name > 64 \<or> non_word_re_search name
                      then gr_pi @ ''g.NewStr('' @ go_str u name @ '')''
                      else sharp_s @ name]])"
    using l a i r by (simp add: block_alloc_temp_def)
  with b2 a show ?thesis by simp
qed

lemma module_block_parent:
  "module_block (ClassBlock b p g) = (case p of None \<Rightarrow> None | Some q \<Rightarrow> module_block q)"
  "module_block (FunctionBlock b p vs) = (case p of None \<Rightarrow> None | Some q \<Rightarrow> module_block q)"
  by (cases p; simp)+

lemma class_local_nearest:
  "(case p of None \<Rightarrow> None | Some q \<Rightarrow> module_block q) \<noteq> None \<Longrightarrow>
   class_local u name p =
     Inr (case find (has_var name) (ancestors p) of
            None \<Rightarrow> ''nil''
          | Some f \<Rightarrow>
              (case function_vars f of
                 None \<Rightarrow> ''nil''
               | Some vs \<Rightarrow>
                   (case map_of vs name of
                      None \<Rightarrow> ''nil''
                    | Some var \<Rightarrow>
                        (if var_type var \<noteq> TYPE_GLOBAL then adjust_local_name u name
                         else ''nil''))))"
proof (induction u name p rule: class_local.induct)
  case (1 u name)
  then show ?case by simp
next
  case (2 u name b m)
  then show ?case by (simp add: has_var_def)
next
  case (3 u name b p vs)
  show ?case
  proof (cases "map_of vs name")
    case None
    then show ?thesis
      using 3 by (simp add: has_var_def module_block_parent)
  next
    case (Some var)
    then show ?thesis by (simp add: has_var_def)
  qed
next
  case (4 u name b p g)
  then show ?case by (simp add: has_var_def module_block_parent)
qed

lemma module_resolve_name:
  assumes "is_module m"
  shows "snd (snd (resolve_name u w name m)) =
     w @ [Write_checked_call2 (fst (alloc_temp default_type (base m))) fmt_ResolveGlobal
            [if length name > 64 \<or> non_word_re_search name
             then gr_pi @ ''g.NewStr('' @ go_str u name @ '')''
             else sharp_s @ name]]"
proof -
  obtain b mf where m: "m = ModuleBlock b mf"
    using assms by (cases m) simp_all
  obtain t b' where a: "alloc_temp default_type b = (t, b')"
    by (cases "alloc_temp default_type b")
  show ?thesis
    unfolding m using a
    by (simp add: ModuleBlock_resolve_name_def resolve_global_def block_alloc_temp_def
        intern_def strings_add_def)
qed

text \<open>
  C1, as the code has it.  In a class block whose chain reaches a module and in
  which \<open>x\<close> is declared global, \<open>resolve_name\<close> does not look at the enclosing
  blocks, whatever their variables are: it takes a temporary of the class block and
  writes the class lookup \<open>ResolveClass\<close> with \<open>nil\<close> in the place of the local and
  the interned name.  The module's own \<open>resolve_name\<close> writes another call,
  \<open>ResolveGlobal\<close>, with the same interned name.
\<close>

theorem C1_class_global_resolve:
  assumes "x \<in> g" and "module_block (ClassBlock b p g) = Some m"
  shows "(\<exists>self'. resolve_name u w x (ClassBlock b p g) =
           (Inr (TempVar (fst (alloc_temp default_type b))), self',
            w @ [Write_checked_call2 (fst (alloc_temp default_type b)) fmt_ResolveClass
                   [''nil'', if length x > 64 \<or> non_word_re_search x
                             then gr_pi @ ''g.NewStr('' @ go_str u x @ '')''
                             else sharp_s @ x]]) \<and>
           base self' = snd (alloc_temp default_type b)) \<and>
         snd (snd (resolve_name u w x m)) =
           w @ [Write_checked_call2 (fst (alloc_temp default_type (base m))) fmt_ResolveGlobal
                  [if length x > 64 \<or> non_word_re_search x
                   then gr_pi @ ''g.NewStr('' @ go_str u x @ '')''
                   else sharp_s @ x]]"
proof -
  have nn: "module_block (ClassBlock b p g) \<noteq> None"
    using assms(2) by simp
  have l: "(if x \<notin> g then class_local u x p else Inr ''nil'') = Inr ''nil''"
    using assms(1) by simp
  have im: "is_module m"
    by (rule module_block_is_module [OF assms(2)])
  show ?thesis
    using class_resolve_name [OF nn l, of w] module_resolve_name [OF im, of u w x]
    by simp
qed

lemma class_resolve_outward:
  assumes "name \<notin> g" and "module_block (ClassBlock b p g) \<noteq> None"
  shows "\<exists>self'. resolve_name u w name (ClassBlock b p g) =
           (Inr (TempVar (fst (alloc_temp default_type b))), self',
            w @ [Write_checked_call2 (fst (alloc_temp default_type b)) fmt_ResolveClass
                   [captured_local u name (ClassBlock b p g),
                    if length name > 64 \<or> non_word_re_search name
                    then gr_pi @ ''g.NewStr('' @ go_str u name @ '')''
                    else sharp_s @ name]]) \<and>
           base self' = snd (alloc_temp default_type b)"
proof -
  have "(case p of None \<Rightarrow> None | Some q \<Rightarrow> module_block q) \<noteq> None"
    using assms(2) by (simp add: module_block_parent)
  then have "class_local u name p = Inr (captured_local u name (ClassBlock b p g))"
    by (simp add: class_local_nearest captured_local_def nearest_function_def)
  then have l: "(if name \<notin> g then class_local u name p else Inr ''nil'') =
      Inr (captured_local u name (ClassBlock b p g))"
    using assms(1) by simp
  show ?thesis
    by (rule class_resolve_name [OF assms(2) l])
qed

lemma temp1: "fst (alloc_temp default_type (Block_init nm)) =
    \<lparr> tv_name = temp_name 1, tv_type = default_type \<rparr>"
  by (simp add: alloc_temp_def Block_init_def Let_def)

theorem C1_counterexample:
  "''x'' \<in> {''x''} \<and>
   module_block (ClassBlock (Block_init ''K'') (Some f_outer) {''x''}) = Some m0 \<and>
   snd (snd (resolve_name util0 [] ''x'' (ClassBlock (Block_init ''K'') (Some f_outer) {''x''})))
     \<noteq> snd (snd (resolve_name util0 [] ''x'' m0)) \<and>
   snd (snd (resolve_name util0 [] ''x'' (ClassBlock (Block_init ''K'') (Some f_outer) {''x''})))
     \<noteq> snd (snd (resolve_global util0 [] ''x''
                     (ClassBlock (Block_init ''K'') (Some f_outer) {''x''})))"
  by (simp add: f_outer_def m0_def ModuleBlock_init_def ModuleBlock_resolve_name_def
      resolve_global_def block_alloc_temp_def intern_def strings_add_def
      non_word_re_search_def word_char_def alloc_temp_def Block_init_def Let_def
      fmt_ResolveClass_def fmt_ResolveGlobal_def gr_pi_def split: prod.splits)

theorem C1_class_global_resolve_witness:
  "snd (snd (resolve_name util0 [] ''x'' (ClassBlock (Block_init ''K'') (Some f_outer) {''x''}))) =
     [Write_checked_call2 \<lparr> tv_name = temp_name 1, tv_type = default_type \<rparr> fmt_ResolveClass
        [''nil'', sharp_s @ ''x'']] \<and>
   snd (snd (resolve_name util0 [] ''x'' m0)) =
     [Write_checked_call2 \<lparr> tv_name = temp_name 1, tv_type = default_type \<rparr> fmt_ResolveGlobal
        [sharp_s @ ''x'']]"
proof -
  have m: "module_block (ClassBlock (Block_init ''K'') (Some f_outer) {''x''}) = Some m0"
    by (simp add: f_outer_def m0_def ModuleBlock_init_def)
  have x: "''x'' \<in> {''x''}" by simp
  have s: "\<not> (length ''x'' > 64 \<or> non_word_re_search ''x'')"
    by (simp add: non_word_re_search_def word_char_def)
  have b: "base m0 = Block_init ''<module>''"
    by (simp add: m0_def ModuleBlock_init_def)
  show ?thesis
    using C1_class_global_resolve [OF x m, of util0 "[]"] s
    by (auto simp: temp1 b)
qed

text \<open>
  C2.  In a class block whose chain reaches a module, for a name that is not
  declared global in the class body, \<open>resolve_name\<close> captures the local of the nearest
  Function-scope ancestor whose variable map has the name, unless that entry is of
  kind Global (class blocks on the way are passed over, and nothing beyond the first
  such function is looked at); it then writes one checked call of the class lookup
  \<open>ResolveClass\<close> with the captured local, or \<open>nil\<close>, and the interned name, into a
  temporary of the class block.  Run, that call gives the value of the captured local
  if there is one and it is bound, else the entry of the class namespace, else the
  entry of the Module namespace, and fails if all three miss.
\<close>

theorem C2_class_resolve_outward:
  assumes "name \<notin> g" and "module_block (ClassBlock b p g) \<noteq> None"
  shows "\<exists>self' i.
           resolve_name u w name (ClassBlock b p g) =
             (Inr (TempVar (fst (alloc_temp default_type b))), self', w @ [i]) \<and>
           i = Write_checked_call2 (fst (alloc_temp default_type b)) fmt_ResolveClass
                 [captured_local u name (ClassBlock b p g),
                  if length name > 64 \<or> non_word_re_search name
                  then gr_pi @ ''g.NewStr('' @ go_str u name @ '')''
                  else sharp_s @ name] \<and>
           base self' = snd (alloc_temp default_type b) \<and>
           run_checked_call2 ns i =
             Some (case (if captured_local u name (ClassBlock b p g) = ''nil'' then None
                         else local_slots ns (captured_local u name (ClassBlock b p g))) of
                     Some val \<Rightarrow> Inr val
                   | None \<Rightarrow>
                       (case class_namespace ns
                               (if length name > 64 \<or> non_word_re_search name
                                then gr_pi @ ''g.NewStr('' @ go_str u name @ '')''
                                else sharp_s @ name) of
                          Some val \<Rightarrow> Inr val
                        | None \<Rightarrow>
                            (case module_namespace ns
                                    (if length name > 64 \<or> non_word_re_search name
                                     then gr_pi @ ''g.NewStr('' @ go_str u name @ '')''
                                     else sharp_s @ name) of
                               Some val \<Rightarrow> Inr val
                             | None \<Rightarrow>
                                 Inl (NameError
                                        (if length name > 64 \<or> non_word_re_search name
                                         then gr_pi @ ''g.NewStr('' @ go_str u name @ '')''
                                         else sharp_s @ name)))))"
proof -
  let ?t = "fst (alloc_temp default_type b)"
  let ?nm = "if length name > 64 \<or> non_word_re_search name
             then gr_pi @ ''g.NewStr('' @ go_str u name @ '')'' else sharp_s @ name"
  let ?i = "Write_checked_call2 ?t fmt_ResolveClass
              [captured_local u name (ClassBlock b p g), ?nm]"
  from class_resolve_outward [OF assms, of u w] obtain self' where
    r: "resolve_name u w name (ClassBlock b p g) = (Inr (TempVar ?t), self', w @ [?i])"
    and bs: "base self' = snd (alloc_temp default_type b)"
    by blast
  have run: "run_checked_call2 ns ?i =
      Some (ResolveClass ns (captured_local u name (ClassBlock b p g)) ?nm)"
    by (simp add: run_checked_call2_def)
  show ?thesis
    using r bs run
    by (simp add: ResolveClass_def ResolveGlobal_def split: option.splits)
qed

theorem C2_class_resolve_outward_witness:
  "(\<exists>self' i. resolve_name util0 [] ''x'' (ClassBlock (Block_init ''K'') (Some k_mid) {}) =
       (Inr (TempVar \<lparr> tv_name = temp_name 1, tv_type = default_type \<rparr>), self', [i]) \<and>
     i = Write_checked_call2 \<lparr> tv_name = temp_name 1, tv_type = default_type \<rparr>
           fmt_ResolveClass [adjust_local_name util0 ''x'', sharp_s @ ''x''] \<and>
     run_checked_call2 ns0 i = Some (Inr ''1'')) \<and>
   (\<exists>self' i. resolve_name util0 [] ''x'' (ClassBlock (Block_init ''K'') (Some f_inner) {}) =
       (Inr (TempVar \<lparr> tv_name = temp_name 1, tv_type = default_type \<rparr>), self', [i]) \<and>
     i = Write_checked_call2 \<lparr> tv_name = temp_name 1, tv_type = default_type \<rparr>
           fmt_ResolveClass [''nil'', sharp_s @ ''x''] \<and>
     run_checked_call2 ns0 i = Some (Inr ''2''))"
proof -
  have m1: "module_block (ClassBlock (Block_init ''K'') (Some k_mid) {}) \<noteq> None"
    by (simp add: k_mid_def f_outer_def m0_def ModuleBlock_init_def)
  have m2: "module_block (ClassBlock (Block_init ''K'') (Some f_inner) {}) \<noteq> None"
    by (simp add: f_inner_def f_outer_def m0_def ModuleBlock_init_def)
  have x: "''x'' \<notin> {}" by simp
  have s: "\<not> (length ''x'' > 64 \<or> non_word_re_search ''x'')"
    by (simp add: non_word_re_search_def word_char_def)
  have c1: "captured_local util0 ''x'' (ClassBlock (Block_init ''K'') (Some k_mid) {}) =
      adjust_local_name util0 ''x''"
    by (simp add: captured_local_def nearest_function_def has_var_def k_mid_def f_outer_def
        m0_def ModuleBlock_init_def var_local_def)
  have c2: "captured_local util0 ''x'' (ClassBlock (Block_init ''K'') (Some f_inner) {}) = ''nil''"
    by (simp add: captured_local_def nearest_function_def has_var_def f_inner_def f_outer_def
        m0_def ModuleBlock_init_def var_global_def)
  have l: "adjust_local_name util0 ''x'' \<noteq> ''nil''"
    by (simp add: util0_def)
  have n1: "local_slots ns0 (adjust_local_name util0 ''x'') = Some ''1''"
    by (simp add: ns0_def)
  have n2: "class_namespace ns0 (sharp_s @ ''x'') = None"
    "module_namespace ns0 (sharp_s @ ''x'') = Some ''2''"
    by (simp_all add: ns0_def)
  have first: "\<exists>self' i. resolve_name util0 [] ''x'' (ClassBlock (Block_init ''K'') (Some k_mid) {}) =
       (Inr (TempVar \<lparr> tv_name = temp_name 1, tv_type = default_type \<rparr>), self', [i]) \<and>
     i = Write_checked_call2 \<lparr> tv_name = temp_name 1, tv_type = default_type \<rparr>
           fmt_ResolveClass [adjust_local_name util0 ''x'', sharp_s @ ''x''] \<and>
     run_checked_call2 ns0 i = Some (Inr ''1'')"
    using C2_class_resolve_outward [OF x m1, of util0 "[]" ns0] s l n1
    by (auto simp: temp1 c1)
  have second: "\<exists>self' i. resolve_name util0 [] ''x'' (ClassBlock (Block_init ''K'') (Some f_inner) {}) =
       (Inr (TempVar \<lparr> tv_name = temp_name 1, tv_type = default_type \<rparr>), self', [i]) \<and>
     i = Write_checked_call2 \<lparr> tv_name = temp_name 1, tv_type = default_type \<rparr>
           fmt_ResolveClass [''nil'', sharp_s @ ''x''] \<and>
     run_checked_call2 ns0 i = Some (Inr ''2'')"
    using C2_class_resolve_outward [OF x m2, of util0 "[]" ns0] s n2
    by (auto simp: temp1 c2)
  from first second show ?thesis by blast
qed

section \<open>The classifier\<close>

lemma ext_by_refl: "ext_by {} xs xs"
  by (simp add: ext_by_def)

lemma ext_by_trans: "ext_by N xs ys \<Longrightarrow> ext_by M ys zs \<Longrightarrow> ext_by (N \<union> M) xs zs"
  by (auto simp: ext_by_def)

lemma ext_by_trans':
  "ext_by N xs ys \<Longrightarrow> ext_by M ys zs \<Longrightarrow> K = N \<union> M \<Longrightarrow> ext_by K xs zs"
  using ext_by_trans by blast

lemma map_of_None_iff: "map_of xs k = None \<longleftrightarrow> k \<notin> fst ` set xs"
  by (simp add: map_of_eq_None_iff)

lemma map_of_Some_fst: "map_of xs k = Some x \<Longrightarrow> k \<in> fst ` set xs"
  using map_of_None_iff [of xs k] by simp

lemma register_local_ext:
  "register_local n v = Inr v' \<Longrightarrow> ext_by {n} (vars v) (vars v') \<and>
     visitor_is_generator v' = visitor_is_generator v"
  by (auto simp: register_local_def Var_init_def ext_by_def map_of_None_iff
      split: option.splits dest: map_of_Some_fst)

lemma register_global_ext:
  "register_global n v = Inr v' \<Longrightarrow> ext_by {n} (vars v) (vars v') \<and>
     visitor_is_generator v' = visitor_is_generator v"
  by (auto simp: register_global_def Var_init_def ext_by_def map_of_None_iff
      split: option.splits if_splits dest: map_of_Some_fst)

lemma visit_expr_vars:
  "vars (visit_expr fv e v) = vars v" "vars (visit_exprs fv es v) = vars v"
  by (induction fv e v and fv es v rule: visit_expr_visit_exprs.induct) auto

lemma visit_expr_opt_vars: "vars (visit_expr_opt fv eo v) = vars v"
  by (simp add: visit_expr_opt_def visit_expr_vars split: option.splits)

lemma assign_target_ext:
  "assign_target t v = Inr v' \<Longrightarrow> ext_by (target_names t) (vars v) (vars v') \<and>
     visitor_is_generator v' = visitor_is_generator v"
  "assign_targets ts v = Inr v' \<Longrightarrow> ext_by (targets_names ts) (vars v) (vars v') \<and>
     visitor_is_generator v' = visitor_is_generator v"
proof (induction t v and ts v arbitrary: v' and v' rule: assign_target_assign_targets.induct)
  case (1 ident v)
  then show ?case by (simp add: register_local_ext)
next
  case (2 elts v)
  then show ?case by simp
next
  case (3 elts v)
  then show ?case by simp
next
  case (4 val v)
  then show ?case by (auto simp: ext_by_refl)
next
  case (5 es v)
  then show ?case by (auto simp: ext_by_refl)
next
  case (6 v)
  then show ?case by (auto simp: ext_by_refl)
next
  case (7 elt elts v)
  from "7.prems" obtain v1 where 1: "assign_target elt v = Inr v1"
    and 2: "assign_targets elts v1 = Inr v'"
    by (auto split: sum.splits)
  show ?case
    using "7.IH"(1) [OF 1] "7.IH"(2) [OF 1 2] by (auto intro: ext_by_trans)
qed

lemma register_locals_ext:
  "register_locals ns v = Inr v' \<Longrightarrow> ext_by (set ns) (vars v) (vars v')"
proof (induction ns arbitrary: v)
  case Nil
  then show ?case by (auto simp: ext_by_refl)
next
  case (Cons n ns)
  from Cons.prems obtain v1 where 1: "register_local n v = Inr v1"
    and 2: "register_locals ns v1 = Inr v'"
    by (auto split: sum.splits)
  show ?case
    using register_local_ext [OF 1] Cons.IH [OF 2] by (auto intro: ext_by_trans')
qed

lemma register_globals_ext:
  "register_globals ns v = Inr v' \<Longrightarrow> ext_by (set ns) (vars v) (vars v')"
proof (induction ns arbitrary: v)
  case Nil
  then show ?case by (auto simp: ext_by_refl)
next
  case (Cons n ns)
  from Cons.prems obtain v1 where 1: "register_global n v = Inr v1"
    and 2: "register_globals ns v1 = Inr v'"
    by (auto split: sum.splits)
  show ?case
    using register_global_ext [OF 1] Cons.IH [OF 2] by (auto intro: ext_by_trans')
qed

lemma handler_name_ext:
  assumes "(case name of None \<Rightarrow> Inr v | Some (Name ident) \<Rightarrow> register_local ident v
            | Some _ \<Rightarrow> Inl AttributeError) = Inr v1"
  shows "ext_by (handler_name name) (vars v) (vars v1)"
proof (cases name)
  case None
  with assms show ?thesis by (auto simp: ext_by_refl)
next
  case (Some e)
  with assms show ?thesis
    by (cases e) (auto simp: register_local_ext)
qed

lemma visit_ext:
  "visit_stmt fv s v = Inr v' \<Longrightarrow> ext_by (bound_names s) (vars v) (vars v')"
  "visit_stmts fv ss v = Inr v' \<Longrightarrow> ext_by (bound_names_list ss) (vars v) (vars v')"
  "visit_handler fv h v = Inr v' \<Longrightarrow> ext_by (bound_names_handler h) (vars v) (vars v')"
  "visit_handlers fv hs v = Inr v' \<Longrightarrow> ext_by (bound_names_handlers hs) (vars v) (vars v')"
proof (induction fv s v and fv ss v and fv h v and fv hs v
    arbitrary: v' and v' and v' and v'
    rule: visit_stmt_visit_stmts_visit_handler_visit_handlers.induct)
  case (1 fv targets val v)
  then show ?case
    by (auto split: sum.splits simp: visit_expr_vars dest: assign_target_ext(2))
next
  case (2 fv target val v)
  then show ?case
    by (auto split: sum.splits simp: visit_expr_vars dest: assign_target_ext(1))
next
  case (3 fv name bases body v)
  then show ?case by (simp add: register_local_ext)
next
  case (4 fv target iter body orelse v)
  from "4.prems" obtain v1 v2 where 1: "assign_target target v = Inr v1"
    and 2: "visit_stmts fv body (visit_expr fv iter (visit_expr fv target v1)) = Inr v2"
    and 3: "visit_stmts fv orelse v2 = Inr v'"
    by (auto split: sum.splits)
  have a: "ext_by (target_names target) (vars v) (vars v1)"
    using assign_target_ext(1) [OF 1] by simp
  have b: "ext_by (bound_names_list body) (vars v1) (vars v2)"
    using "4.IH"(1) [OF 1 2] by (simp add: visit_expr_vars)
  have c: "ext_by (bound_names_list orelse) (vars v2) (vars v')"
    using "4.IH"(2) [OF 1 2 3] .
  show ?case
    using ext_by_trans [OF ext_by_trans [OF a b] c] by simp
next
  case (5 fv name arguments body v)
  then show ?case by (simp add: register_local_ext)
next
  case (6 fv names v)
  then show ?case by (simp add: register_globals_ext)
next
  case (7 fv names v)
  then show ?case using register_locals_ext [of "map import_name names" v v'] by simp
next
  case (8 fv names v)
  then show ?case using register_locals_ext [of "map import_from_name names" v v'] by simp
next
  case (9 fv context_expr optional_vars body v)
  from "9.prems" obtain v1 where
    1: "(case optional_vars of None \<Rightarrow> Inr v | Some t \<Rightarrow> assign_target t v) = Inr v1"
    and 2: "visit_stmts fv body
        (visit_expr_opt fv optional_vars (visit_expr fv context_expr v1)) = Inr v'"
    by (auto split: sum.splits)
  have a: "ext_by (case optional_vars of None \<Rightarrow> {} | Some t \<Rightarrow> target_names t)
      (vars v) (vars v1)"
    using 1 by (auto split: option.splits simp: ext_by_refl dest: assign_target_ext(1))
  have b: "ext_by (bound_names_list body) (vars v1) (vars v')"
    using "9.IH" [OF 1 2] by (simp add: visit_expr_vars visit_expr_opt_vars)
  show ?case
    using ext_by_trans [OF a b] by simp
next
  case (10 fv body handlers orelse v)
  from "10.prems" obtain v1 v2 where 1: "visit_stmts fv body v = Inr v1"
    and 2: "visit_handlers fv handlers v1 = Inr v2"
    and 3: "visit_stmts fv orelse v2 = Inr v'"
    by (auto split: sum.splits)
  show ?case
    using ext_by_trans [OF ext_by_trans [OF "10.IH"(1) [OF 1] "10.IH"(2) [OF 1 2]]
        "10.IH"(3) [OF 1 2 3]]
    by simp
next
  case (11 fv es ss v)
  then show ?case by (simp add: visit_expr_vars)
next
  case (12 fv v)
  then show ?case by (auto simp: ext_by_refl)
next
  case (13 fv s ss v)
  from "13.prems" obtain v1 where 1: "visit_stmt fv s v = Inr v1"
    and 2: "visit_stmts fv ss v1 = Inr v'"
    by (auto split: sum.splits)
  show ?case
    using ext_by_trans [OF "13.IH"(1) [OF 1] "13.IH"(2) [OF 1 2]] by simp
next
  case (14 fv type' name body v)
  from "14.prems" obtain v1 where
    1: "(case name of None \<Rightarrow> Inr v | Some (Name ident) \<Rightarrow> register_local ident v
         | Some _ \<Rightarrow> Inl AttributeError) = Inr v1"
    and 2: "visit_stmts fv body (visit_expr_opt fv name (visit_expr_opt fv type' v1)) = Inr v'"
    by (auto split: sum.splits)
  have b: "ext_by (bound_names_list body) (vars v1) (vars v')"
    using "14.IH" [OF 1 2] by (simp add: visit_expr_opt_vars)
  show ?case
    using ext_by_trans [OF handler_name_ext [OF 1] b] by simp
next
  case (15 fv v)
  then show ?case by (auto simp: ext_by_refl)
next
  case (16 fv h hs v)
  from "16.prems" obtain v1 where 1: "visit_handler fv h v = Inr v1"
    and 2: "visit_handlers fv hs v1 = Inr v'"
    by (auto split: sum.splits)
  show ?case
    using ext_by_trans [OF "16.IH"(1) [OF 1] "16.IH"(2) [OF 1 2]] by simp
qed

lemma ext_by_map_of:
  "ext_by N xs ys \<Longrightarrow> map_of xs x = Some var \<Longrightarrow> map_of ys x = Some var"
  by (auto simp: ext_by_def map_add_Some_iff)

lemma ext_by_take: "ext_by N xs ys \<Longrightarrow> take (length xs) ys = xs"
  by (auto simp: ext_by_def)

section \<open>Parameters\<close>

lemma register_params_distinct:
  "distinct names \<Longrightarrow> set names \<inter> fst ` set (vars v) = {} \<Longrightarrow>
   register_params i names v =
     Inr (v\<lparr>vars := vars v @
            map (\<lambda>(k, n). (n, \<lparr> var_name = n, var_type = TYPE_PARAM,
                                 init_expr = Some (gr_pi @ ''Args['' @ dec k @ '']'') \<rparr>))
              (List.enumerate i names)\<rparr>)"
proof (induction names arbitrary: i v)
  case Nil
  then show ?case by simp
next
  case (Cons n ns)
  let ?var = "\<lparr> var_name = n, var_type = TYPE_PARAM,
                 init_expr = Some (gr_pi @ ''Args['' @ dec i @ '']'') \<rparr>"
  let ?v1 = "v\<lparr>vars := vars v @ [(n, ?var)]\<rparr>"
  have absent: "map_of (vars v) n = None"
    using Cons.prems(2) by (simp add: map_of_None_iff)
  have d: "distinct ns" and disj: "set ns \<inter> fst ` set (vars ?v1) = {}"
    using Cons.prems by auto
  have "register_params i (n # ns) v = register_params (Suc i) ns ?v1"
    using absent by (simp add: Var_init_def)
  then show ?case
    using Cons.IH [OF d disj, of "Suc i"] by simp
qed

lemma register_params_duplicate:
  "\<not> (distinct names \<and> set names \<inter> fst ` set (vars v) = {}) \<Longrightarrow>
   \<exists>n \<in> set names. register_params i names v =
     Inl (ParseError (''duplicate argument '' @ squote @ n @ squote
                       @ '' in function definition''))"
proof (induction names arbitrary: i v)
  case Nil
  then show ?case by simp
next
  case (Cons n ns)
  show ?case
  proof (cases "map_of (vars v) n")
    case (Some var)
    then show ?thesis by simp
  next
    case None
    let ?var = "\<lparr> var_name = n, var_type = TYPE_PARAM,
                   init_expr = Some (gr_pi @ ''Args['' @ dec i @ '']'') \<rparr>"
    let ?v1 = "v\<lparr>vars := vars v @ [(n, ?var)]\<rparr>"
    have step: "register_params i (n # ns) v = register_params (Suc i) ns ?v1"
      using None by (simp add: Var_init_def)
    have "n \<notin> fst ` set (vars v)"
      using None by (simp add: map_of_None_iff)
    with Cons.prems have "\<not> (distinct ns \<and> set ns \<inter> fst ` set (vars ?v1) = {})"
      by auto
    from Cons.IH [OF this, of "Suc i"] show ?thesis
      unfolding step by auto
  qed
qed

lemma arg_ids_Names: "arg_ids (map Name ids) = Inr ids"
  by (induction ids) simp_all

lemma function_parameters:
  assumes "arg_names node_args = Inr names"
  shows "(\<forall>ids. args node_args = map Name ids \<longrightarrow>
            names = ids @ opt_name (vararg node_args) @ opt_name (kwarg node_args)) \<and>
         (distinct names \<longrightarrow>
            FunctionBlockVisitor_init node_args =
              Inr \<lparr> vars = map (\<lambda>(k, n). (n, \<lparr> var_name = n, var_type = TYPE_PARAM,
                                      init_expr = Some (gr_pi @ ''Args['' @ dec k @ '']'') \<rparr>))
                             (List.enumerate 0 names),
                    visitor_is_generator = False \<rparr> \<and>
            (\<forall>v. classify_function node_args body = Inr v \<longrightarrow>
               take (length names) (vars v) =
                 map (\<lambda>(k, n). (n, \<lparr> var_name = n, var_type = TYPE_PARAM,
                                      init_expr = Some (gr_pi @ ''Args['' @ dec k @ '']'') \<rparr>))
                   (List.enumerate 0 names))) \<and>
         (\<not> distinct names \<longrightarrow>
            (\<exists>n \<in> set names.
               FunctionBlockVisitor_init node_args =
                 Inl (ParseError (''duplicate argument '' @ squote @ n @ squote
                                   @ '' in function definition'')) \<and>
               classify_function node_args body =
                 Inl (ParseError (''duplicate argument '' @ squote @ n @ squote
                                   @ '' in function definition''))))"
proof (intro conjI allI impI)
  fix ids assume "args node_args = map Name ids"
  then show "names = ids @ opt_name (vararg node_args) @ opt_name (kwarg node_args)"
    using assms by (simp add: arg_names_def arg_ids_Names)
next
  let ?ps = "map (\<lambda>(k, n). (n, \<lparr> var_name = n, var_type = TYPE_PARAM,
                                      init_expr = Some (gr_pi @ ''Args['' @ dec k @ '']'') \<rparr>))
                   (List.enumerate 0 names)"
  assume d: "distinct names"
  show init: "FunctionBlockVisitor_init node_args = Inr \<lparr> vars = ?ps, visitor_is_generator = False \<rparr>"
    using assms register_params_distinct [OF d, of BlockVisitor_init 0]
    by (simp add: FunctionBlockVisitor_init_def BlockVisitor_init_def)
  fix v assume "classify_function node_args body = Inr v"
  then have "visit_stmts True body \<lparr> vars = ?ps, visitor_is_generator = False \<rparr> = Inr v"
    using init by (simp add: classify_function_def)
  from ext_by_take [OF visit_ext(2) [OF this]]
  show "take (length names) (vars v) = ?ps"
    by simp
next
  assume "\<not> distinct names"
  then have "\<not> (distinct names \<and> set names \<inter> fst ` set (vars BlockVisitor_init) = {})"
    by simp
  from register_params_duplicate [OF this, of 0]
  show "\<exists>n \<in> set names.
               FunctionBlockVisitor_init node_args =
                 Inl (ParseError (''duplicate argument '' @ squote @ n @ squote
                                   @ '' in function definition'')) \<and>
               classify_function node_args body =
                 Inl (ParseError (''duplicate argument '' @ squote @ n @ squote
                                   @ '' in function definition''))"
    using assms by (auto simp: FunctionBlockVisitor_init_def classify_function_def)
qed

text \<open>
  C8, as the code has it.  For a function whose positional parameters are all plain
  names, with \<open>names\<close> the parameter names in declaration order (the positional
  parameters, then the variable-positional and the variable-keyword one): when no
  name is repeated, the visitor starts with exactly one entry per parameter, in that
  order, of kind Parameter and with the indices 0, 1, 2, ..., and these entries stay
  the first ones of the variable map after the body is classified; when a name is
  repeated, the visitor cannot be made and classification fails with the
  duplicate-argument error for a repeated name.
\<close>

theorem C8_function_parameters:
  assumes "args node_args = map Name ids"
    and "names = ids @ opt_name (vararg node_args) @ opt_name (kwarg node_args)"
  shows "(distinct names \<longrightarrow>
            FunctionBlockVisitor_init node_args =
              Inr \<lparr> vars = map (\<lambda>(k, n). (n, \<lparr> var_name = n, var_type = TYPE_PARAM,
                                      init_expr = Some (gr_pi @ ''Args['' @ dec k @ '']'') \<rparr>))
                             (List.enumerate 0 names),
                    visitor_is_generator = False \<rparr> \<and>
            (\<forall>v. classify_function node_args body = Inr v \<longrightarrow>
               take (length names) (vars v) =
                 map (\<lambda>(k, n). (n, \<lparr> var_name = n, var_type = TYPE_PARAM,
                                      init_expr = Some (gr_pi @ ''Args['' @ dec k @ '']'') \<rparr>))
                   (List.enumerate 0 names))) \<and>
         (\<not> distinct names \<longrightarrow>
            (\<exists>n \<in> set names.
               FunctionBlockVisitor_init node_args =
                 Inl (ParseError (''duplicate argument '' @ squote @ n @ squote
                                   @ '' in function definition'')) \<and>
               classify_function node_args body =
                 Inl (ParseError (''duplicate argument '' @ squote @ n @ squote
                                   @ '' in function definition''))))"
proof -
  have "arg_names node_args = Inr names"
    using assms by (simp add: arg_names_def arg_ids_Names)
  from function_parameters [OF this, of body] show ?thesis by blast
qed

theorem C8_counterexample:
  "FunctionBlockVisitor_init args_tuple = Inl AttributeError \<and>
   classify_function args_tuple [] = Inl AttributeError"
  by (simp add: classify_function_def FunctionBlockVisitor_init_def arg_names_def
      args_tuple_def)

theorem C8_function_parameters_witness:
  "FunctionBlockVisitor_init args_ab =
     Inr \<lparr> vars = [(''a'', var_param ''a'' 0), (''b'', var_param ''b'' 1),
                   (''rest'', var_param ''rest'' 2), (''kw'', var_param ''kw'' 3)],
           visitor_is_generator = False \<rparr> \<and>
   classify_function args_aa body_total =
     Inl (ParseError (''duplicate argument '' @ squote @ ''a'' @ squote
                       @ '' in function definition''))"
proof -
  have ab: "args args_ab = map Name [''a'', ''b'']"
    "[''a'', ''b'', ''rest'', ''kw''] =
      [''a'', ''b''] @ opt_name (vararg args_ab) @ opt_name (kwarg args_ab)"
    by (simp_all add: args_ab_def opt_name_def)
  have aa: "args args_aa = map Name [''a'', ''a'']"
    "[''a'', ''a''] = [''a'', ''a''] @ opt_name (vararg args_aa) @ opt_name (kwarg args_aa)"
    by (simp_all add: args_aa_def opt_name_def)
  have e: "List.enumerate 0 [''a'', ''b'', ''rest'', ''kw''] =
      [(0, ''a''), (1, ''b''), (2, ''rest''), (3, ''kw'')]"
    by (simp add: enumerate_eq_zip upt_rec)
  show ?thesis
    using C8_function_parameters [OF ab, of body_total] C8_function_parameters [OF aa, of body_total]
    by (simp add: e var_param_def dec.simps digit_def)
qed

section \<open>Global declarations\<close>

lemma global_declaration:
  "(map_of (vars v) x = Some var \<and> var_type var = TYPE_PARAM \<longrightarrow>
      visit_stmt fv (Global [x]) v =
        Inl (ParseError (''name '' @ squote @ x @ squote @ '' is parameter and global''))) \<and>
   (map_of (vars v) x = Some var \<and> var_type var = TYPE_LOCAL \<longrightarrow>
      visit_stmt fv (Global [x]) v =
        Inl (ParseError (''name '' @ squote @ x @ squote
                          @ '' is used prior to global declaration''))) \<and>
   (map_of (vars v) x = None \<or> (map_of (vars v) x = Some var \<and> var_type var = TYPE_GLOBAL) \<longrightarrow>
      (\<exists>v' var'. visit_stmt fv (Global [x]) v = Inr v' \<and>
         map_of (vars v') x = Some var' \<and> var_type var' = TYPE_GLOBAL)) \<and>
   (map_of (vars v) x = Some var \<and> var_type var = TYPE_GLOBAL \<longrightarrow>
      register_local x v = Inr v \<and>
      (\<forall>ss v'. visit_stmts fv ss v = Inr v' \<longrightarrow> map_of (vars v') x = Some var))"
proof (intro conjI impI allI)
  assume "map_of (vars v) x = Some var \<and> var_type var = TYPE_PARAM"
  then show "visit_stmt fv (Global [x]) v =
        Inl (ParseError (''name '' @ squote @ x @ squote @ '' is parameter and global''))"
    by (simp add: register_global_def)
next
  assume "map_of (vars v) x = Some var \<and> var_type var = TYPE_LOCAL"
  then show "visit_stmt fv (Global [x]) v =
        Inl (ParseError (''name '' @ squote @ x @ squote
                          @ '' is used prior to global declaration''))"
    by (simp add: register_global_def)
next
  assume "map_of (vars v) x = None \<or> (map_of (vars v) x = Some var \<and> var_type var = TYPE_GLOBAL)"
  then show "\<exists>v' var'. visit_stmt fv (Global [x]) v = Inr v' \<and>
         map_of (vars v') x = Some var' \<and> var_type var' = TYPE_GLOBAL"
  proof
    assume n: "map_of (vars v) x = None"
    let ?g = "\<lparr> var_name = x, var_type = TYPE_GLOBAL, init_expr = None \<rparr>"
    have "visit_stmt fv (Global [x]) v = Inr (v\<lparr>vars := vars v @ [(x, ?g)]\<rparr>)"
      using n by (simp add: register_global_def Var_init_def)
    moreover have "map_of (vars (v\<lparr>vars := vars v @ [(x, ?g)]\<rparr>)) x = Some ?g"
      using n by (simp add: map_add_def)
    ultimately show ?thesis by auto
  next
    assume "map_of (vars v) x = Some var \<and> var_type var = TYPE_GLOBAL"
    then show ?thesis by (simp add: register_global_def)
  qed
next
  assume "map_of (vars v) x = Some var \<and> var_type var = TYPE_GLOBAL"
  then show "register_local x v = Inr v"
    by (simp add: register_local_def)
next
  fix ss v'
  assume a: "map_of (vars v) x = Some var \<and> var_type var = TYPE_GLOBAL"
    and b: "visit_stmts fv ss v = Inr v'"
  show "map_of (vars v') x = Some var"
    using ext_by_map_of [OF visit_ext(2) [OF b]] a by simp
qed

lemma assign_target_total:
  "\<exists>v'. assign_target t v = Inr v'"
  "\<exists>v'. assign_targets ts v = Inr v'"
proof (induction t v and ts v rule: assign_target_assign_targets.induct)
  case (1 ident v)
  then show ?case
    by (simp add: register_local_def Var_init_def split: option.splits)
next
  case (7 elt elts v)
  from "7.IH"(1) obtain v1 where 1: "assign_target elt v = Inr v1" by blast
  from "7.IH"(2) [OF 1] obtain v2 where "assign_targets elts v1 = Inr v2" by blast
  with 1 show ?case by simp
qed simp_all

lemma assign_target_map:
  "assign_target t v = Inr v' \<Longrightarrow>
   map_of (vars v') x =
     (if x \<in> target_names t \<and> map_of (vars v) x = None then Some (var_local x)
      else map_of (vars v) x)"
  "assign_targets ts v = Inr v' \<Longrightarrow>
   map_of (vars v') x =
     (if x \<in> targets_names ts \<and> map_of (vars v) x = None then Some (var_local x)
      else map_of (vars v) x)"
proof (induction t v and ts v arbitrary: v' and v' rule: assign_target_assign_targets.induct)
  case (1 ident v)
  then show ?case
    by (auto simp: register_local_def Var_init_def var_local_def map_add_def
        split: option.splits)
next
  case (2 elts v)
  then show ?case by simp
next
  case (3 elts v)
  then show ?case by simp
next
  case (4 val v)
  then show ?case by auto
next
  case (5 es v)
  then show ?case by auto
next
  case (6 v)
  then show ?case by auto
next
  case (7 elt elts v)
  from "7.prems" obtain v1 where 1: "assign_target elt v = Inr v1"
    and 2: "assign_targets elts v1 = Inr v'"
    by (auto split: sum.splits)
  show ?case
    using "7.IH"(1) [OF 1] "7.IH"(2) [OF 1 2] by (auto simp: var_local_def)
qed

lemma visit_stmts_append:
  "visit_stmts fv (ss @ ts) v =
     (case visit_stmts fv ss v of Inl err \<Rightarrow> Inl err | Inr v1 \<Rightarrow> visit_stmts fv ts v1)"
  by (induction ss arbitrary: v) (auto split: sum.splits)

lemma param_entry:
  "x \<in> set names \<Longrightarrow>
   \<exists>var. map_of (map (\<lambda>(k, n). (n, \<lparr> var_name = n, var_type = TYPE_PARAM,
                          init_expr = Some (gr_pi @ ''Args['' @ dec k @ '']'') \<rparr>))
                 (List.enumerate i names)) x = Some var \<and> var_type var = TYPE_PARAM"
  by (induction names arbitrary: i) auto

lemma global_after:
  assumes "map_of (vars v2) x = Some var"
  shows "var_type var = TYPE_LOCAL \<Longrightarrow>
           visit_stmts fv (Global [x] # rest) v2 =
             Inl (ParseError (''name '' @ squote @ x @ squote
                               @ '' is used prior to global declaration''))"
    and "var_type var = TYPE_PARAM \<Longrightarrow>
           visit_stmts fv (Global [x] # rest) v2 =
             Inl (ParseError (''name '' @ squote @ x @ squote @ '' is parameter and global''))"
  using assms by (simp_all add: register_global_def)

lemma assign_then_global:
  assumes n: "map_of (vars v) x = None" and x: "x \<in> targets_names targets"
  shows "(\<exists>v1. visit_stmt fv (Assign targets e) v = Inr v1 \<and>
            map_of (vars v1) x = Some (var_local x)) \<and>
         visit_stmts fv (Assign targets e # ss @ Global [x] # rest) v =
           (case visit_stmts fv (Assign targets e # ss) v of
              Inl err \<Rightarrow> Inl err
            | Inr v2 \<Rightarrow> Inl (ParseError (''name '' @ squote @ x @ squote
                                          @ '' is used prior to global declaration'')))"
proof -
  from assign_target_total(2) obtain v0 where a: "assign_targets targets v = Inr v0" by blast
  let ?v1 = "visit_expr fv e v0"
  have s: "visit_stmt fv (Assign targets e) v = Inr ?v1"
    using a by simp
  have m: "map_of (vars ?v1) x = Some (var_local x)"
    using assign_target_map(2) [OF a, of x] n x by (simp add: visit_expr_vars)
  have t: "var_type (var_local x) = TYPE_LOCAL"
    by (simp add: var_local_def)
  have "visit_stmts fv (ss @ Global [x] # rest) ?v1 =
      (case visit_stmts fv ss ?v1 of
         Inl err \<Rightarrow> Inl err
       | Inr v2 \<Rightarrow> Inl (ParseError (''name '' @ squote @ x @ squote
                                     @ '' is used prior to global declaration'')))"
  proof (cases "visit_stmts fv ss ?v1")
    case (Inl err)
    then show ?thesis by (simp add: visit_stmts_append)
  next
    case (Inr v2)
    have "map_of (vars v2) x = Some (var_local x)"
      by (rule ext_by_map_of [OF visit_ext(2) [OF Inr] m])
    from global_after(1) [OF this t, of fv rest] Inr show ?thesis
      by (simp add: visit_stmts_append)
  qed
  with s m show ?thesis by simp
qed

lemma param_then_global:
  assumes a: "args node_args = map Name ids"
    and nm: "names = ids @ opt_name (vararg node_args) @ opt_name (kwarg node_args)"
    and x: "x \<in> set names"
  shows "classify_function node_args (ss @ Global [x] # rest) =
           (case classify_function node_args ss of
              Inl err \<Rightarrow> Inl err
            | Inr v2 \<Rightarrow> Inl (ParseError (''name '' @ squote @ x @ squote
                                          @ '' is parameter and global'')))"
proof (cases "FunctionBlockVisitor_init node_args")
  case (Inl err)
  then show ?thesis by (simp add: classify_function_def)
next
  case (Inr v0)
  have an: "arg_names node_args = Inr names"
    using a nm by (simp add: arg_names_def arg_ids_Names)
  have d: "distinct names"
  proof (rule ccontr)
    assume "\<not> distinct names"
    with function_parameters [OF an, of ss] Inr show False by auto
  qed
  from function_parameters [OF an, of ss] d Inr
  have v0: "vars v0 = map (\<lambda>(k, n). (n, \<lparr> var_name = n, var_type = TYPE_PARAM,
                          init_expr = Some (gr_pi @ ''Args['' @ dec k @ '']'') \<rparr>))
                 (List.enumerate 0 names)"
    by auto
  from param_entry [OF x, of 0] obtain var where
    m: "map_of (vars v0) x = Some var" and t: "var_type var = TYPE_PARAM"
    unfolding v0 by blast
  show ?thesis
  proof (cases "visit_stmts True ss v0")
    case (Inl err)
    then show ?thesis
      using Inr by (simp add: classify_function_def visit_stmts_append)
  next
    case (Inr v2)
    have "map_of (vars v2) x = Some var"
      by (rule ext_by_map_of [OF visit_ext(2) [OF Inr] m])
    from global_after(2) [OF this t, of True rest] Inr \<open>FunctionBlockVisitor_init node_args = Inr v0\<close>
    show ?thesis
      by (simp add: classify_function_def visit_stmts_append)
  qed
qed

lemma global_then:
  assumes n: "map_of (vars v) x = None"
    and s: "visit_stmts fv (Global [x] # ss) v = Inr v'"
  shows "map_of (vars v') x = Some (var_global x)"
proof -
  let ?v1 = "v\<lparr>vars := vars v @ [(x, var_global x)]\<rparr>"
  have g: "visit_stmt fv (Global [x]) v = Inr ?v1"
    using n by (simp add: register_global_def Var_init_def var_global_def)
  have m: "map_of (vars ?v1) x = Some (var_global x)"
    using n by (simp add: map_add_def)
  from s g have "visit_stmts fv ss ?v1 = Inr v'" by simp
  from ext_by_map_of [OF visit_ext(2) [OF this] m] show ?thesis .
qed

text \<open>
  C4.  A declaration \<open>global x\<close> fails when \<open>x\<close> is registered as Parameter and
  when it is registered as Local, each with its own error; otherwise it succeeds and
  \<open>x\<close> is then registered as Global.  Once \<open>x\<close> is Global, registering it as a local
  changes nothing, and so does every statement visited later: its entry remains.  An
  assignment to a name not yet registered registers it as Local, so that a body in
  which \<open>global x\<close> comes after an assignment to \<open>x\<close> fails to classify, with the
  error of the use before the declaration if nothing fails before; a function body
  with \<open>global x\<close> for a parameter \<open>x\<close> fails likewise, with the error of a name that
  is parameter and global; and after \<open>global x\<close> for a name not yet registered, \<open>x\<close>
  is Global at the end of every body that classifies.
\<close>

theorem C4_global_declaration:
  "(map_of (vars v) x = Some var \<and> var_type var = TYPE_PARAM \<longrightarrow>
      visit_stmt fv (Global [x]) v =
        Inl (ParseError (''name '' @ squote @ x @ squote @ '' is parameter and global''))) \<and>
   (map_of (vars v) x = Some var \<and> var_type var = TYPE_LOCAL \<longrightarrow>
      visit_stmt fv (Global [x]) v =
        Inl (ParseError (''name '' @ squote @ x @ squote
                          @ '' is used prior to global declaration''))) \<and>
   (map_of (vars v) x = None \<or> (map_of (vars v) x = Some var \<and> var_type var = TYPE_GLOBAL) \<longrightarrow>
      (\<exists>v' var'. visit_stmt fv (Global [x]) v = Inr v' \<and>
         map_of (vars v') x = Some var' \<and> var_type var' = TYPE_GLOBAL)) \<and>
   (map_of (vars v) x = Some var \<and> var_type var = TYPE_GLOBAL \<longrightarrow>
      register_local x v = Inr v \<and>
      (\<forall>ss v'. visit_stmts fv ss v = Inr v' \<longrightarrow> map_of (vars v') x = Some var)) \<and>
   (map_of (vars v) x = None \<and> x \<in> targets_names targets \<longrightarrow>
      (\<exists>v1. visit_stmt fv (Assign targets e) v = Inr v1 \<and>
         map_of (vars v1) x =
           Some \<lparr> var_name = x, var_type = TYPE_LOCAL,
                  init_expr = Some (gr_pi @ ''g.UnboundLocal'') \<rparr>) \<and>
      visit_stmts fv (Assign targets e # ss @ Global [x] # rest) v =
        (case visit_stmts fv (Assign targets e # ss) v of
           Inl err \<Rightarrow> Inl err
         | Inr v2 \<Rightarrow> Inl (ParseError (''name '' @ squote @ x @ squote
                                       @ '' is used prior to global declaration'')))) \<and>
   (args node_args = map Name ids \<and>
    x \<in> set (ids @ opt_name (vararg node_args) @ opt_name (kwarg node_args)) \<longrightarrow>
      classify_function node_args (ss @ Global [x] # rest) =
        (case classify_function node_args ss of
           Inl err \<Rightarrow> Inl err
         | Inr v2 \<Rightarrow> Inl (ParseError (''name '' @ squote @ x @ squote
                                       @ '' is parameter and global'')))) \<and>
   (map_of (vars v) x = None \<longrightarrow>
      (\<forall>v'. visit_stmts fv (Global [x] # ss) v = Inr v' \<longrightarrow>
         map_of (vars v') x =
           Some \<lparr> var_name = x, var_type = TYPE_GLOBAL, init_expr = None \<rparr>))"
proof -
  note old = global_declaration [of v x var fv]
  have p5: "map_of (vars v) x = None \<and> x \<in> targets_names targets \<longrightarrow>
      (\<exists>v1. visit_stmt fv (Assign targets e) v = Inr v1 \<and>
         map_of (vars v1) x =
           Some \<lparr> var_name = x, var_type = TYPE_LOCAL,
                  init_expr = Some (gr_pi @ ''g.UnboundLocal'') \<rparr>) \<and>
      visit_stmts fv (Assign targets e # ss @ Global [x] # rest) v =
        (case visit_stmts fv (Assign targets e # ss) v of
           Inl err \<Rightarrow> Inl err
         | Inr v2 \<Rightarrow> Inl (ParseError (''name '' @ squote @ x @ squote
                                       @ '' is used prior to global declaration'')))"
    using assign_then_global [of v x targets fv e ss rest]
    unfolding var_local_def by blast
  have p6: "args node_args = map Name ids \<and>
    x \<in> set (ids @ opt_name (vararg node_args) @ opt_name (kwarg node_args)) \<longrightarrow>
      classify_function node_args (ss @ Global [x] # rest) =
        (case classify_function node_args ss of
           Inl err \<Rightarrow> Inl err
         | Inr v2 \<Rightarrow> Inl (ParseError (''name '' @ squote @ x @ squote
                                       @ '' is parameter and global'')))"
    using param_then_global [of node_args ids _ x ss rest] by blast
  have p7: "map_of (vars v) x = None \<longrightarrow>
      (\<forall>v'. visit_stmts fv (Global [x] # ss) v = Inr v' \<longrightarrow>
         map_of (vars v') x =
           Some \<lparr> var_name = x, var_type = TYPE_GLOBAL, init_expr = None \<rparr>)"
    using global_then [of v x fv ss]
    unfolding var_global_def by blast
  from old p5 p6 p7 show ?thesis by (intro conjI) (elim conjE, assumption)+
qed

theorem C4_global_declaration_witness:
  "visit_stmts True [Assign [Name ''x''] (OtherExpr []), Global [''x'']] BlockVisitor_init =
     Inl (ParseError (''name '' @ squote @ ''x'' @ squote
                       @ '' is used prior to global declaration'')) \<and>
   classify_function args_ab [Global [''a'']] =
     Inl (ParseError (''name '' @ squote @ ''a'' @ squote @ '' is parameter and global'')) \<and>
   visit_stmts True [Global [''x''], Assign [Name ''x''] (OtherExpr [])] BlockVisitor_init =
     Inr \<lparr> vars = [(''x'', var_global ''x'')], visitor_is_generator = False \<rparr> \<and>
   visit_stmt True (Global [''x''])
       \<lparr> vars = [(''x'', var_param ''x'' 0)], visitor_is_generator = False \<rparr> =
     Inl (ParseError (''name '' @ squote @ ''x'' @ squote @ '' is parameter and global''))"
proof -
  let ?vg = "\<lparr> vars = [(''x'', var_global ''x'')], visitor_is_generator = False \<rparr>"
  let ?vp = "\<lparr> vars = [(''x'', var_param ''x'' 0)], visitor_is_generator = False \<rparr>"
  have n: "map_of (vars BlockVisitor_init) ''x'' = None"
    by (simp add: BlockVisitor_init_def)
  have t: "''x'' \<in> targets_names [Name ''x'']" by simp
  have pre: "visit_stmts True [Assign [Name ''x''] (OtherExpr [])] BlockVisitor_init =
      Inr \<lparr> vars = [(''x'', var_local ''x'')], visitor_is_generator = False \<rparr>"
    by (simp add: register_local_def BlockVisitor_init_def Var_init_def var_local_def)
  have 1: "visit_stmts True [Assign [Name ''x''] (OtherExpr []), Global [''x'']]
      BlockVisitor_init =
     Inl (ParseError (''name '' @ squote @ ''x'' @ squote
                       @ '' is used prior to global declaration''))"
    using C4_global_declaration [where v = BlockVisitor_init and x = "''x''" and fv = True
        and targets = "[Name ''x'']" and e = "OtherExpr []" and ss = "[]" and rest = "[]"]
      n t pre
    by simp
  have a: "args args_ab = map Name [''a'', ''b'']"
    "''a'' \<in> set ([''a'', ''b''] @ opt_name (vararg args_ab) @ opt_name (kwarg args_ab))"
    by (simp_all add: args_ab_def)
  have c: "classify_function args_ab [] =
      Inr \<lparr> vars = [(''a'', var_param ''a'' 0), (''b'', var_param ''b'' 1),
                    (''rest'', var_param ''rest'' 2), (''kw'', var_param ''kw'' 3)],
            visitor_is_generator = False \<rparr>"
    by (simp add: classify_function_def FunctionBlockVisitor_init_def arg_names_def
        args_ab_def opt_name_def BlockVisitor_init_def Var_init_def var_param_def
        dec.simps digit_def)
  have 2: "classify_function args_ab [Global [''a'']] =
     Inl (ParseError (''name '' @ squote @ ''a'' @ squote @ '' is parameter and global''))"
    using C4_global_declaration [where node_args = args_ab and ids = "[''a'', ''b'']"
        and x = "''a''" and ss = "[]" and rest = "[]"] a c
    by simp
  have g: "map_of (vars ?vg) ''x'' = Some (var_global ''x'') \<and>
      var_type (var_global ''x'') = TYPE_GLOBAL"
    by (simp add: var_global_def)
  have first: "visit_stmt True (Global [''x'']) BlockVisitor_init = Inr ?vg"
    by (simp add: register_global_def BlockVisitor_init_def Var_init_def var_global_def)
  have "visit_stmts True [Assign [Name ''x''] (OtherExpr [])] ?vg = Inr ?vg"
    using C4_global_declaration [where v = ?vg and x = "''x''" and var = "var_global ''x''"
        and fv = True] g
    by simp
  then have 3: "visit_stmts True [Global [''x''], Assign [Name ''x''] (OtherExpr [])]
      BlockVisitor_init = Inr ?vg"
    using first by simp
  have p: "map_of (vars ?vp) ''x'' = Some (var_param ''x'' 0) \<and>
      var_type (var_param ''x'' 0) = TYPE_PARAM"
    by (simp add: var_param_def)
  have 4: "visit_stmt True (Global [''x'']) ?vp =
     Inl (ParseError (''name '' @ squote @ ''x'' @ squote @ '' is parameter and global''))"
    using C4_global_declaration [where v = ?vp and x = "''x''" and var = "var_param ''x'' 0"
        and fv = True] p
    by simp
  from 1 2 3 4 show ?thesis by simp
qed

section \<open>The keys of the variable map\<close>

lemma classify_function_parts:
  assumes "classify_function node_args body = Inr v"
  shows "\<exists>names v0. arg_names node_args = Inr names \<and> distinct names \<and>
           FunctionBlockVisitor_init node_args = Inr v0 \<and> map fst (vars v0) = names \<and>
           visit_stmts True body v0 = Inr v"
proof -
  from assms obtain v0 where v0: "FunctionBlockVisitor_init node_args = Inr v0"
    and vis: "visit_stmts True body v0 = Inr v"
    by (auto simp: classify_function_def split: sum.splits)
  from v0 obtain names where names: "arg_names node_args = Inr names"
    and reg: "register_params 0 names BlockVisitor_init = Inr v0"
    by (auto simp: FunctionBlockVisitor_init_def split: sum.splits)
  have d: "distinct names"
  proof (rule ccontr)
    assume "\<not> distinct names"
    then have "\<not> (distinct names \<and> set names \<inter> fst ` set (vars BlockVisitor_init) = {})"
      by simp
    from register_params_duplicate [OF this, of 0] reg show False by auto
  qed
  have "map fst (vars v0) = names"
    using register_params_distinct [OF d, of BlockVisitor_init 0] reg
    by (auto simp: BlockVisitor_init_def comp_def case_prod_unfold)
  with names d v0 vis show ?thesis by blast
qed

text \<open>
  C3, as the code has it.  When the classification of a function succeeds, the keys
  of the variable map are exactly the parameter names and the names bound directly in
  the body (the insides of nested definitions left out), and no key occurs twice.  A
  name that the body only reads gets no entry.
\<close>

theorem C3_variable_map_keys:
  assumes "classify_function node_args body = Inr v"
  shows "\<exists>names. arg_names node_args = Inr names \<and>
           fst ` set (vars v) = set names \<union> bound_names_list body \<and>
           distinct (map fst (vars v)) \<and>
           (\<forall>x. x \<notin> set names \<union> bound_names_list body \<longrightarrow> map_of (vars v) x = None)"
proof -
  from classify_function_parts [OF assms] obtain names v0 where
    names: "arg_names node_args = Inr names" and d: "distinct names"
    and keys: "map fst (vars v0) = names" and vis: "visit_stmts True body v0 = Inr v"
    by blast
  have e: "ext_by (bound_names_list body) (vars v0) (vars v)"
    by (rule visit_ext(2) [OF vis])
  have "fst ` set (vars v0) = set names"
    using keys by (metis set_map)
  then have k: "fst ` set (vars v) = set names \<union> bound_names_list body"
    using e by (simp add: ext_by_def)
  then have "\<forall>x. x \<notin> set names \<union> bound_names_list body \<longrightarrow> map_of (vars v) x = None"
    by (simp add: map_of_None_iff)
  moreover have "distinct (map fst (vars v))"
    using e d keys by (simp add: ext_by_def)
  ultimately show ?thesis using names k by blast
qed

theorem C3_counterexample:
  "classify_function no_args [OtherStmt [Name ''y''] []] =
     Inr \<lparr> vars = [], visitor_is_generator = False \<rparr>"
  by (simp add: classify_function_def FunctionBlockVisitor_init_def arg_names_def no_args_def
      opt_name_def BlockVisitor_init_def)

theorem C3_variable_map_keys_witness:
  "classify_function args_ab body_total =
     Inr \<lparr> vars = [(''a'', var_param ''a'' 0), (''b'', var_param ''b'' 1),
                   (''rest'', var_param ''rest'' 2), (''kw'', var_param ''kw'' 3),
                   (''total'', var_global ''total''), (''count'', var_local ''count''),
                   (''inner'', var_local ''inner'')],
           visitor_is_generator = False \<rparr> \<and>
   set [''a'', ''b'', ''rest'', ''kw''] \<union> bound_names_list body_total =
     {''a'', ''b'', ''rest'', ''kw'', ''total'', ''count'', ''inner''}"
proof -
  let ?v = "\<lparr> vars = [(''a'', var_param ''a'' 0), (''b'', var_param ''b'' 1),
                   (''rest'', var_param ''rest'' 2), (''kw'', var_param ''kw'' 3),
                   (''total'', var_global ''total''), (''count'', var_local ''count''),
                   (''inner'', var_local ''inner'')],
           visitor_is_generator = False \<rparr>"
  have ab: "arg_names args_ab = Inr [''a'', ''b'', ''rest'', ''kw'']"
    by (simp add: arg_names_def args_ab_def opt_name_def)
  have c: "classify_function args_ab body_total = Inr ?v"
    by (simp add: classify_function_def FunctionBlockVisitor_init_def ab BlockVisitor_init_def
        Var_init_def body_total_def register_global_def register_local_def
        var_param_def var_global_def var_local_def dec.simps digit_def)
  have "fst ` set (vars ?v) = set [''a'', ''b'', ''rest'', ''kw''] \<union> bound_names_list body_total"
    using C3_variable_map_keys [OF c] ab by (elim exE conjE) simp
  then have "set [''a'', ''b'', ''rest'', ''kw''] \<union> bound_names_list body_total =
      {''a'', ''b'', ''rest'', ''kw'', ''total'', ''count'', ''inner''}"
    by auto
  with c show ?thesis by simp
qed

end
